theory Spec2Isabelle imports Complex_Main "HOL-Library.Log_Nat" begin

section \<open>JavaScript numbers\<close>

text \<open>
  A JavaScript number is an IEEE 754 binary64 value: a finite real, an infinity or NaN.
  The two zeros are one value here: the code below never divides by a computed value, and
  every other operation it uses treats them alike.
\<close>

datatype jsnum = Num real | Infinity | NegInfinity | NaN

definition pow2 :: "int \<Rightarrow> real" where
  "pow2 k = (if 0 \<le> k then 2 ^ nat k else 1 / 2 ^ nat (- k))"

text \<open>The binary exponent \<open>\<lfloor>log\<^sub>2 |x|\<rfloor>\<close> of a non-zero real.\<close>

definition exponent :: "real \<Rightarrow> int" where
  "exponent x =
     (let a = \<bar>x\<bar>
      in if 1 \<le> a then bitlen \<lfloor>a\<rfloor> - 1 else - bitlen (\<lceil>1 / a\<rceil> - 1))"

definition roundHalfEven :: "real \<Rightarrow> int" where
  "roundHalfEven x =
     (let f = \<lfloor>x\<rfloor>
      in if x < of_int f + 1 / 2 then f
         else if of_int f + 1 / 2 < x then f + 1
         else if even f then f else f + 1)"

text \<open>
  Rounding of an exact result to binary64, to nearest with ties to even: 53 significant
  bits (\<open>m\<close> is the significand as an integer), gradual underflow below \<open>2\<^sup>-\<^sup>1\<^sup>0\<^sup>2\<^sup>2\<close>, and
  overflow to an infinity when the rounded value reaches \<open>2\<^sup>1\<^sup>0\<^sup>2\<^sup>4\<close>.
\<close>

definition roundDouble :: "real \<Rightarrow> jsnum" where
  "roundDouble x =
     (if x = 0 then Num 0
      else
        (let e = max (exponent x) (- 1022);
             quantum = pow2 (e - 52);
             m = roundHalfEven (x / quantum)
         in if 1024 \<le> e \<or> (e = 1023 \<and> 2 ^ 53 \<le> \<bar>m\<bar>)
            then (if 0 < x then Infinity else NegInfinity)
            else Num (real_of_int m * quantum)))"

text \<open>The arithmetic operators \<open>+\<close>, \<open>-\<close>, \<open>*\<close>, \<open>/\<close> and the comparison \<open>>\<close>.\<close>

fun jsAdd :: "jsnum \<Rightarrow> jsnum \<Rightarrow> jsnum" where
  "jsAdd (Num x) (Num y) = roundDouble (x + y)"
| "jsAdd NaN b = NaN"
| "jsAdd a NaN = NaN"
| "jsAdd Infinity NegInfinity = NaN"
| "jsAdd NegInfinity Infinity = NaN"
| "jsAdd Infinity b = Infinity"
| "jsAdd NegInfinity b = NegInfinity"
| "jsAdd a Infinity = Infinity"
| "jsAdd a NegInfinity = NegInfinity"

fun jsNeg :: "jsnum \<Rightarrow> jsnum" where
  "jsNeg (Num x) = Num (- x)"
| "jsNeg Infinity = NegInfinity"
| "jsNeg NegInfinity = Infinity"
| "jsNeg NaN = NaN"

definition jsSub :: "jsnum \<Rightarrow> jsnum \<Rightarrow> jsnum" where
  "jsSub a b = jsAdd a (jsNeg b)"

fun jsSign :: "jsnum \<Rightarrow> int" where
  "jsSign (Num x) = (if 0 < x then 1 else if x < 0 then - 1 else 0)"
| "jsSign Infinity = 1"
| "jsSign NegInfinity = - 1"
| "jsSign NaN = 0"

definition signedInfinity :: "int \<Rightarrow> jsnum" where
  "signedInfinity s = (if s = 0 then NaN else if 0 < s then Infinity else NegInfinity)"

fun jsMul :: "jsnum \<Rightarrow> jsnum \<Rightarrow> jsnum" where
  "jsMul (Num x) (Num y) = roundDouble (x * y)"
| "jsMul NaN b = NaN"
| "jsMul a NaN = NaN"
| "jsMul a b = signedInfinity (jsSign a * jsSign b)"

text \<open>
  Division: the divisors in the code are the literal 3 and a positive array length. A
  finite value divided by zero is given the sign of the dividend.
\<close>

fun jsDiv :: "jsnum \<Rightarrow> jsnum \<Rightarrow> jsnum" where
  "jsDiv (Num x) (Num y) =
     (if y = 0 then signedInfinity (jsSign (Num x)) else roundDouble (x / y))"
| "jsDiv NaN b = NaN"
| "jsDiv a NaN = NaN"
| "jsDiv (Num x) b = Num 0"
| "jsDiv a (Num y) = signedInfinity (jsSign a * (if y < 0 then - 1 else 1))"
| "jsDiv a b = NaN"

fun jsGreater :: "jsnum \<Rightarrow> jsnum \<Rightarrow> bool" where
  "jsGreater (Num x) (Num y) = (y < x)"
| "jsGreater NaN b = False"
| "jsGreater a NaN = False"
| "jsGreater Infinity Infinity = False"
| "jsGreater Infinity b = True"
| "jsGreater a NegInfinity = (a \<noteq> NegInfinity)"
| "jsGreater a b = False"

text \<open>\<open>Math.min\<close> and \<open>Math.max\<close> of two numbers: NaN if either is NaN.\<close>

definition mathMax :: "jsnum \<Rightarrow> jsnum \<Rightarrow> jsnum" where
  "mathMax a b = (if a = NaN \<or> b = NaN then NaN else if jsGreater b a then b else a)"

definition mathMin :: "jsnum \<Rightarrow> jsnum \<Rightarrow> jsnum" where
  "mathMin a b = (if a = NaN \<or> b = NaN then NaN else if jsGreater a b then b else a)"

text \<open>
  Storing a number into a \<open>Uint8ClampedArray\<close> (the \<open>data\<close> of an \<open>ImageData\<close>)
  converts it with ToUint8Clamp: NaN becomes 0, other values are clamped to \<open>[0,255]\<close> and
  rounded to the nearest integer, ties to the even one.
\<close>

fun toUint8Clamp :: "jsnum \<Rightarrow> nat" where
  "toUint8Clamp (Num v) =
     (if v \<le> 0 then 0 else if 255 \<le> v then 255 else nat (roundHalfEven v))"
| "toUint8Clamp Infinity = 255"
| "toUint8Clamp NegInfinity = 0"
| "toUint8Clamp NaN = 0"

section \<open>Pixel filter loop of \<open>preprocessImage\<close> (components/ocr/utils.ts)\<close>

text \<open>
  The options object of \<open>preprocessImage\<close> after its defaults have been filled in;
  \<open>threshold\<close> is \<open>number | null\<close>.
\<close>

record FilterOptions =
  scale :: jsnum
  grayscale :: bool
  contrast :: jsnum
  brightness :: jsnum
  sharpen :: bool
  threshold :: "jsnum option"

text \<open>
  The three arithmetic expressions of the loop body, named: the BT.601 luma of the
  \<open>// Grayscale\<close> step, the \<open>// Contrast & Brightness\<close> expression and the
  \<open>// Clamp values\<close> expression \<open>Math.max(0, Math.min(255, v))\<close>. Every operation rounds, and
  a decimal literal is the double nearest to it.
\<close>

definition luma :: "jsnum \<Rightarrow> jsnum \<Rightarrow> jsnum \<Rightarrow> jsnum" where
  "luma r g b =
     jsAdd (jsAdd (jsMul (roundDouble 0.299) r) (jsMul (roundDouble 0.587) g))
           (jsMul (roundDouble 0.114) b)"

definition contrastBrightness :: "FilterOptions \<Rightarrow> jsnum \<Rightarrow> jsnum" where
  "contrastBrightness opts v =
     jsMul (jsAdd (jsMul (jsSub v (Num 128)) (contrast opts)) (Num 128)) (brightness opts)"

definition clamp255 :: "jsnum \<Rightarrow> jsnum" where
  "clamp255 v = mathMax (Num 0) (mathMin (Num 255) v)"

text \<open>
  The body of the loop \<open>for (let i = 0; i < data.length; i += 4)\<close>: the values of
  \<open>r\<close>, \<open>g\<close>, \<open>b\<close> just before they are written back to \<open>data\<close>.
\<close>

definition filterPixel :: "FilterOptions \<Rightarrow> jsnum \<Rightarrow> jsnum \<Rightarrow> jsnum \<Rightarrow> jsnum \<times> jsnum \<times> jsnum" where
  "filterPixel opts r0 g0 b0 =
     (let (r1, g1, b1) =
            (if grayscale opts
             then (let gray = luma r0 g0 b0 in (gray, gray, gray))
             else (r0, g0, b0));
          r2 = contrastBrightness opts r1;
          g2 = contrastBrightness opts g1;
          b2 = contrastBrightness opts b1;
          r3 = clamp255 r2;
          g3 = clamp255 g2;
          b3 = clamp255 b2
      in (case threshold opts of
            None \<Rightarrow> (r3, g3, b3)
          | Some t \<Rightarrow>
              (let avg = jsDiv (jsAdd (jsAdd r3 g3) b3) (Num 3);
                   v = (if jsGreater avg t then Num 255 else Num 0)
               in (v, v, v))))"

text \<open>
  The whole loop over the sample array (four samples per pixel, the alpha sample
  \<open>data[i + 3]\<close> is never written). \<open>getImageData\<close> always returns \<open>4 * width * height\<close>
  samples, so the second equation is only reached with the empty rest.
\<close>

fun applyFilters :: "FilterOptions \<Rightarrow> nat list \<Rightarrow> nat list" where
  "applyFilters opts (r # g # b # a # rest) =
     (case filterPixel opts (Num (real r)) (Num (real g)) (Num (real b)) of
        (r', g', b') \<Rightarrow>
          toUint8Clamp r' # toUint8Clamp g' # toUint8Clamp b' # a # applyFilters opts rest)"
| "applyFilters opts rest = rest"

text \<open>
  Three option sets: the defaults of \<open>preprocessImage\<close>, the constants that
  \<open>HandwrittenDigitRecognizer\<close> passes, and a neutral set with the threshold 200.
\<close>

definition optsDefault :: FilterOptions where
  "optsDefault = \<lparr>scale = Num 2, grayscale = True, contrast = Num 1.5,
                   brightness = roundDouble 1.1, sharpen = False, threshold = None\<rparr>"

definition optsHandwriting :: FilterOptions where
  "optsHandwriting = \<lparr>scale = Num 3, grayscale = True, contrast = Num 2.5,
                       brightness = roundDouble 1.2, sharpen = False,
                       threshold = Some (Num 140)\<rparr>"

definition optsNeutral :: FilterOptions where
  "optsNeutral = \<lparr>scale = Num 1, grayscale = True, contrast = Num 1,
                   brightness = Num 1, sharpen = False, threshold = Some (Num 200)\<rparr>"

section \<open>Connected-component segmentation (digitSegmentation.ts)\<close>

text \<open>
  \<open>BoundingBox\<close> has the fields \<open>x\<close>, \<open>y\<close>, \<open>width\<close>, \<open>height\<close> in the source; they carry
  the prefix \<open>box_\<close> here, so that \<open>x\<close> and \<open>y\<close> stay usable as variables and do not
  collide with the fields of \<open>ImageData\<close>. \<open>ImageData.data\<close> is a \<open>Uint8ClampedArray\<close> of
  \<open>4 * width * height\<close> samples (R, G, B, A per pixel, row-major).
\<close>

record BoundingBox =
  box_x :: int
  box_y :: int
  box_width :: int
  box_height :: int

record ImageData =
  width :: int
  height :: int
  data :: "nat list"

record SegmentedDigit =
  bbox :: BoundingBox
  imageData :: ImageData

text \<open>
  \<open>isForeground\<close>: the red sample of pixel \<open>(x, y)\<close> is below 128. A read beyond the end
  of a typed array gives \<open>undefined\<close>, and \<open>undefined < 128\<close> is false.
\<close>

definition isForeground :: "ImageData \<Rightarrow> int \<Rightarrow> int \<Rightarrow> bool" where
  "isForeground img x y =
     (let idx = nat ((y * width img + x) * 4)
      in idx < length (data img) \<and> data img ! idx < 128)"

text \<open>
  The \<open>visited\<close> array of booleans. \<open>visited[idx]\<close> used as a condition is false for a hole
  or an index beyond the end; \<open>visited[idx] = true\<close> beyond the end grows the array
  (the skipped slots are holes, which read as false).
\<close>

definition isVisited :: "bool list \<Rightarrow> nat \<Rightarrow> bool" where
  "isVisited visited idx = (idx < length visited \<and> visited ! idx)"

definition markVisited :: "bool list \<Rightarrow> nat \<Rightarrow> bool list" where
  "markVisited visited idx =
     (if idx < length visited then visited[idx := True]
      else visited @ replicate (idx - length visited) False @ [True])"

text \<open>The local variables of \<open>floodFill\<close> that its \<open>while\<close> loop updates.\<close>

record FloodState =
  visited :: "bool list"
  minX :: int
  maxX :: int
  minY :: int
  maxY :: int
  pixelCount :: nat

text \<open>
  The pixels of the raster whose \<open>visited\<close> entry is still false: the loop below marks one
  of them whenever it pushes new coordinates, which is why it terminates.
\<close>

definition unvisited :: "ImageData \<Rightarrow> bool list \<Rightarrow> nat set" where
  "unvisited img vs = {idx. idx < nat (width img * height img) \<and> \<not> isVisited vs idx}"

lemma pixel_index_in_range:
  assumes "0 \<le> x" "x < w" "0 \<le> y" "y < (h::int)"
  shows "nat (y * w + x) < nat (w * h)"
proof -
  have "y + 1 \<le> h" using assms by simp
  then have "(y + 1) * w \<le> h * w"
    using assms by (intro mult_right_mono) simp_all
  then have "y * w + x < w * h" using assms by (simp add: algebra_simps)
  moreover have "0 \<le> y * w + x" using assms by simp
  ultimately show ?thesis by simp
qed

lemma isVisited_markVisited:
  "isVisited (markVisited vs i) j = (j = i \<or> isVisited vs j)"
  by (auto simp: isVisited_def markVisited_def nth_append nth_list_update)

lemma unvisited_markVisited:
  "unvisited img (markVisited vs i) = unvisited img vs - {i}"
  by (auto simp: unvisited_def isVisited_markVisited)

lemma finite_unvisited: "finite (unvisited img vs)"
  by (simp add: unvisited_def)

text \<open>
  The six assignments that \<open>floodFill\<close> makes for a pixel it accepts: mark it visited,
  count it, and widen the tracked extremes.
\<close>

definition markPixel :: "FloodState \<Rightarrow> int \<Rightarrow> int \<Rightarrow> nat \<Rightarrow> FloodState" where
  "markPixel st x y idx =
     st\<lparr>visited := markVisited (visited st) idx,
        pixelCount := pixelCount st + 1,
        minX := min (minX st) x,
        maxX := max (maxX st) x,
        minY := min (minY st) y,
        maxY := max (maxY st) y\<rparr>"

text \<open>
  The \<open>while (stack.length > 0)\<close> loop of \<open>floodFill\<close>. The JavaScript array \<open>stack\<close> is used
  with \<open>push\<close> and \<open>pop\<close> only; the head of the list is its last element (the top), so the
  eight neighbours appear in reverse order of their \<open>push\<close>.
\<close>

function floodLoop :: "ImageData \<Rightarrow> (int \<times> int) list \<Rightarrow> FloodState \<Rightarrow> FloodState" where
  "floodLoop img [] st = st"
| "floodLoop img ((x, y) # stack) st =
     (if x < 0 \<or> x \<ge> width img \<or> y < 0 \<or> y \<ge> height img then floodLoop img stack st
      else
        (let idx = nat (y * width img + x)
         in if isVisited (visited st) idx \<or> \<not> isForeground img x y then floodLoop img stack st
            else floodLoop img
                   ((x - 1, y + 1) # (x + 1, y - 1) # (x - 1, y - 1) # (x + 1, y + 1) #
                    (x, y - 1) # (x, y + 1) # (x - 1, y) # (x + 1, y) # stack)
                   (markPixel st x y idx)))"
  by pat_completeness auto
termination
proof (relation "measures [\<lambda>(img, stack, st). card (unvisited img (visited st)),
                           \<lambda>(img, stack, st). length stack]")
  show "wf (measures [\<lambda>(img, stack, st). card (unvisited img (visited st)),
                      \<lambda>(img :: ImageData, stack :: (int \<times> int) list, st :: FloodState). length stack])"
    by simp
next
  fix img :: ImageData and x y :: int and stack :: "(int \<times> int) list" and st :: FloodState
    and idx :: nat
  assume inr: "\<not> (x < 0 \<or> width img \<le> x \<or> y < 0 \<or> height img \<le> y)"
    and idx: "idx = nat (y * width img + x)"
    and new: "\<not> (isVisited (visited st) idx \<or> \<not> isForeground img x y)"
  have "idx < nat (width img * height img)"
    unfolding idx using inr by (intro pixel_index_in_range) simp_all
  then have mem: "idx \<in> unvisited img (visited st)"
    using new by (simp add: unvisited_def)
  have "card (unvisited img (visited st) - {idx}) < card (unvisited img (visited st))"
    using mem finite_unvisited by (intro card_Diff1_less) simp_all
  then show "((img, (x - 1, y + 1) # (x + 1, y - 1) # (x - 1, y - 1) # (x + 1, y + 1) #
                    (x, y - 1) # (x, y + 1) # (x - 1, y) # (x + 1, y) # stack,
               markPixel st x y idx),
              (img, (x, y) # stack, st))
             \<in> measures [\<lambda>(img, stack, st). card (unvisited img (visited st)),
                         \<lambda>(img, stack, st). length stack]"
    by (simp add: unvisited_markVisited markPixel_def)
qed simp_all

declare floodLoop.simps [simp del]

text \<open>
  \<open>floodFill\<close>: run the loop from the start pixel, then filter by size. It returns the
  bounding box (\<open>None\<close> for \<open>null\<close>) together with the updated \<open>visited\<close> array, which the
  source shares through the closure. \<open>width * height * 0.9\<close> is a floating-point product;
  it is taken as the exact real here (for rasters below \<open>2^53\<close> pixels the comparison with
  the integer \<open>area\<close> has the same outcome).
\<close>

definition floodStart :: "bool list \<Rightarrow> int \<Rightarrow> int \<Rightarrow> FloodState" where
  "floodStart vs startX startY =
     \<lparr>visited = vs, minX = startX, maxX = startX, minY = startY, maxY = startY, pixelCount = 0\<rparr>"

definition floodBox :: "FloodState \<Rightarrow> BoundingBox" where
  "floodBox st =
     \<lparr>box_x = minX st, box_y = minY st,
      box_width = maxX st - minX st + 1, box_height = maxY st - minY st + 1\<rparr>"

definition floodFill :: "ImageData \<Rightarrow> bool list \<Rightarrow> int \<Rightarrow> int \<Rightarrow> BoundingBox option \<times> bool list" where
  "floodFill img vs startX startY =
     (let st = floodLoop img [(startX, startY)] (floodStart vs startX startY);
          componentWidth = maxX st - minX st + 1;
          componentHeight = maxY st - minY st + 1;
          area = componentWidth * componentHeight
      in (if pixelCount st < 50 \<or>
             real_of_int area > real_of_int (width img * height img) * 0.9 \<or>
             componentWidth < 10 \<or>
             componentHeight < 10
          then None
          else Some (floodBox st),
          visited st))"

text \<open>
  The two nested \<open>for\<close> loops over \<open>y\<close> and \<open>x\<close>, as one pass over the pixel coordinates in
  row-major order; the accumulator holds \<open>visited\<close> and \<open>components\<close>.
\<close>

definition rasterCoords :: "ImageData \<Rightarrow> (int \<times> int) list" where
  "rasterCoords img =
     concat (map (\<lambda>y. map (\<lambda>x. (x, y)) [0..width img - 1]) [0..height img - 1])"

fun scanPixels ::
  "ImageData \<Rightarrow> (int \<times> int) list \<Rightarrow> bool list \<times> BoundingBox list \<Rightarrow> bool list \<times> BoundingBox list"
where
  "scanPixels img [] acc = acc"
| "scanPixels img ((x, y) # rest) (vs, components) =
     (let idx = nat (y * width img + x)
      in if \<not> isVisited vs idx \<and> isForeground img x y
         then (case floodFill img vs x y of
                 (None, vs') \<Rightarrow> scanPixels img rest (vs', components)
               | (Some b, vs') \<Rightarrow> scanPixels img rest (vs', components @ [b]))
         else scanPixels img rest (vs, components))"

text \<open>
  The 2D canvas is the browser's: \<open>Canvas\<close> stands for the samples that
  \<open>getImageData(0, 0, size, size)\<close> reads from a \<open>size \<times> size\<close> canvas after
  \<open>fillRect\<close> with white and \<open>drawImage(source, sx, sy, sw, sh, dx, dy, sw, sh)\<close>; its
  arguments are the source image, \<open>sx\<close>, \<open>sy\<close>, \<open>sw\<close>, \<open>sh\<close>, \<open>dx\<close>, \<open>dy\<close> and \<open>size\<close>.
\<close>

type_synonym Canvas = "ImageData \<Rightarrow> int \<Rightarrow> int \<Rightarrow> int \<Rightarrow> int \<Rightarrow> real \<Rightarrow> real \<Rightarrow> int \<Rightarrow> nat list"

text \<open>The callback of \<open>components.map\<close>: padding, square canvas, centred copy.\<close>

definition extractDigit :: "Canvas \<Rightarrow> ImageData \<Rightarrow> BoundingBox \<Rightarrow> SegmentedDigit" where
  "extractDigit canvas img b =
     (let padding = 5;
          paddedX = max 0 (box_x b - padding);
          paddedY = max 0 (box_y b - padding);
          paddedWidth = min (width img - paddedX) (box_width b + padding * 2);
          paddedHeight = min (height img - paddedY) (box_height b + padding * 2);
          size = max paddedWidth paddedHeight;
          offsetX = real_of_int (size - paddedWidth) / 2;
          offsetY = real_of_int (size - paddedHeight) / 2;
          segmentData = \<lparr>width = size, height = size,
                          data = canvas img paddedX paddedY paddedWidth paddedHeight
                                   offsetX offsetY size\<rparr>
      in \<lparr>bbox = \<lparr>box_x = paddedX, box_y = paddedY,
                   box_width = paddedWidth, box_height = paddedHeight\<rparr>,
          imageData = segmentData\<rparr>)"

text \<open>
  \<open>segmentDigits\<close>. \<open>components.sort((a, b) => a.x - b.x)\<close> is a stable sort by \<open>x\<close>
  (Array.prototype.sort is stable), as \<open>sort_key\<close> is.
\<close>

definition findComponents :: "ImageData \<Rightarrow> BoundingBox list" where
  "findComponents img =
     snd (scanPixels img (rasterCoords img)
            (replicate (nat (width img * height img)) False, []))"

definition segmentDigits :: "Canvas \<Rightarrow> ImageData \<Rightarrow> SegmentedDigit list" where
  "segmentDigits canvas img =
     map (extractDigit canvas img) (sort_key box_x (findComponents img))"

text \<open>
  For stating which components are emitted: the final loop state of every flood fill that
  the scan starts, in scan order (accepted or not), and the indices of the dark pixels of
  a raster.
\<close>

fun scanFloods :: "ImageData \<Rightarrow> (int \<times> int) list \<Rightarrow> bool list \<Rightarrow> FloodState list" where
  "scanFloods img [] vs = []"
| "scanFloods img ((x, y) # rest) vs =
     (if \<not> isVisited vs (nat (y * width img + x)) \<and> isForeground img x y
      then (let st = floodLoop img [(x, y)] (floodStart vs x y)
            in st # scanFloods img rest (visited st))
      else scanFloods img rest vs)"

definition passesSizeFilter :: "ImageData \<Rightarrow> FloodState \<Rightarrow> bool" where
  "passesSizeFilter img st =
     (\<not> (pixelCount st < 50 \<or>
         real_of_int (box_width (floodBox st) * box_height (floodBox st))
           > real_of_int (width img * height img) * 0.9 \<or>
         box_width (floodBox st) < 10 \<or>
         box_height (floodBox st) < 10))"

definition allFloods :: "ImageData \<Rightarrow> FloodState list" where
  "allFloods img =
     scanFloods img (rasterCoords img) (replicate (nat (width img * height img)) False)"

definition inkIndices :: "ImageData \<Rightarrow> nat set" where
  "inkIndices img =
     {idx. idx < nat (width img * height img) \<and>
           4 * idx < length (data img) \<and> data img ! (4 * idx) < 128}"

text \<open>
  For the evaluation of the scan on concrete rasters: the continuation of \<open>scanPixels\<close>
  after a flood fill, written on the loop state of that flood fill.
\<close>

definition scanAfter ::
  "ImageData \<Rightarrow> (int \<times> int) list \<Rightarrow> BoundingBox list \<Rightarrow> FloodState \<Rightarrow> bool list \<times> BoundingBox list"
where
  "scanAfter img rest comps st =
     scanPixels img rest
       (visited st, if passesSizeFilter img st then comps @ [floodBox st] else comps)"

subsection \<open>Concrete rasters\<close>

text \<open>
  \<open>rasterOf w h ink\<close> is the opaque raster of \<open>w \<times> h\<close> pixels that is black where \<open>ink\<close> holds
  and white elsewhere. \<open>stacked\<close> (16 \<times> 21) holds two copies of one 50-pixel glyph, one above
  the other, both touching the left edge; \<open>speck\<close> (12 \<times> 12) holds one 3 \<times> 3 blot.
  \<open>blankCanvas\<close> is a canvas that returns white samples whatever is drawn: bounding boxes
  do not depend on the canvas.
\<close>

definition rasterOf :: "int \<Rightarrow> int \<Rightarrow> (int \<Rightarrow> int \<Rightarrow> bool) \<Rightarrow> ImageData" where
  "rasterOf w h ink =
     \<lparr>width = w, height = h,
      data = concat (map (\<lambda>i. if ink (int i mod w) (int i div w)
                               then [0, 0, 0, 255] else [255, 255, 255, 255])
                        [0..<nat (w * h)])\<rparr>"

definition inkL :: "int \<Rightarrow> int \<Rightarrow> bool" where
  "inkL x y = (0 \<le> x \<and> 0 \<le> y \<and> x < 10 \<and> (y < 4 \<or> (x = 0 \<and> y < 10) \<or> (x = 1 \<and> y < 8)))"

definition stacked :: ImageData where
  "stacked = rasterOf 16 21 (\<lambda>x y. inkL x y \<or> inkL x (y - 11))"

definition blankCanvas :: Canvas where
  "blankCanvas = (\<lambda>source sx sy sw sh dx dy size. replicate (nat (4 * size * size)) 255)"

definition speck :: ImageData where
  "speck = rasterOf 12 12 (\<lambda>x y. 4 \<le> x \<and> x < 7 \<and> 4 \<le> y \<and> y < 7)"

section \<open>Classifier service (mnistModel.ts)\<close>

text \<open>
  A \<open>tf.LayersModel\<close> object is represented by its identity. \<open>World\<close> is the state that
  outlives a call: the module variable \<open>model\<close>, whether the browser store holds a model
  under \<open>indexeddb://mnist-model\<close>, the next fresh object identity, and two counters that
  record how often \<open>tf.loadLayersModel\<close> and \<open>fit\<close> have been called.
\<close>

type_synonym handle = nat

record World =
  model :: "handle option"
  stored :: bool
  nextId :: nat
  loadCalls :: nat
  fitCalls :: nat

text \<open>
  \<open>Env\<close> collects what the browser and TensorFlow.js decide. A thrown error or rejected
  promise is its message, \<open>Inl msg\<close>; for the three training steps \<open>None\<close> means success.
  A tensor is the flat list of its values. The five \<open>tf\<close> fields are the tensor operations
  that \<open>preprocessForMNIST\<close> calls (\<open>tf.browser.fromPixels(imageData, 1)\<close>,
  \<open>tf.image.resizeBilinear(tensor, [28, 28])\<close>, \<open>tensor.div(255.0)\<close>,
  \<open>tensor.mean().dataSync()[0]\<close> and \<open>tf.sub(1.0, tensor)\<close>); they compute in 32-bit
  floats inside TensorFlow.js. \<open>predict\<close> is \<open>mnistModel.predict(inputTensor).dataSync()\<close>,
  \<open>preprocessed\<close> is the outcome of \<open>preprocessImage(file, ...)\<close> (a data URL), \<open>decoded\<close> the
  outcome of decoding that URL into an \<open>ImageData\<close>, and \<open>startTime\<close>, \<open>endTime\<close> are the two
  readings of \<open>Date.now()\<close>.
\<close>

record Env =
  dataLoad :: "string option"
  fit :: "string option"
  save :: "string option"
  tfFromPixels :: "ImageData \<Rightarrow> jsnum list"
  tfResizeBilinear :: "jsnum list \<Rightarrow> jsnum list"
  tfDiv255 :: "jsnum list \<Rightarrow> jsnum list"
  tfMean :: "jsnum list \<Rightarrow> jsnum"
  tfSubFrom1 :: "jsnum list \<Rightarrow> jsnum list"
  predict :: "handle \<Rightarrow> jsnum list \<Rightarrow> string + jsnum list"
  preprocessed :: "string + string"
  decoded :: "string + ImageData"
  canvas2d :: Canvas
  startTime :: int
  endTime :: int

definition initFailure :: "string \<Rightarrow> string" where
  "initFailure msg = ''Failed to initialize MNIST model: '' @ msg"

text \<open>
  \<open>loadMNISTModel\<close>, run without interruption: the cached model if there is one; else the
  stored model; else a new model, trained once and saved. Any error after the failed load
  is rethrown with the prefix of \<open>initFailure\<close>, and \<open>model\<close> stays \<open>null\<close>.
\<close>

definition loadMNISTModel :: "Env \<Rightarrow> World \<Rightarrow> (string + handle) \<times> World" where
  "loadMNISTModel env w =
     (case model w of
        Some m \<Rightarrow> (Inr m, w)
      | None \<Rightarrow>
          (let w1 = w\<lparr>loadCalls := loadCalls w + 1\<rparr>
           in if stored w1
              then (let m = nextId w1
                    in (Inr m, w1\<lparr>model := Some m, nextId := m + 1\<rparr>))
              else
                (let newModel = nextId w1;
                     w2 = w1\<lparr>nextId := newModel + 1\<rparr>
                 in case dataLoad env of
                      Some e \<Rightarrow> (Inl (initFailure e), w2)
                    | None \<Rightarrow>
                        (let w3 = w2\<lparr>fitCalls := fitCalls w2 + 1\<rparr>
                         in case fit env of
                              Some e \<Rightarrow> (Inl (initFailure e), w3)
                            | None \<Rightarrow>
                                (case save env of
                                   Some e \<Rightarrow> (Inl (initFailure e), w3)
                                 | None \<Rightarrow>
                                     (Inr newModel,
                                      w3\<lparr>stored := True, model := Some newModel\<rparr>))))))"

text \<open>
  The same function as the event loop runs it: one step from each \<open>await\<close> to the next.
  \<open>pc\<close> is the point at which a call is suspended, with the model it has created.
\<close>

datatype pc =
    Start
  | AwaitLoad
  | AwaitData handle
  | AwaitFit handle
  | AwaitSave handle
  | Done "string + handle"

fun step :: "Env \<Rightarrow> World \<Rightarrow> pc \<Rightarrow> World \<times> pc" where
  "step env w Start =
     (case model w of
        Some m \<Rightarrow> (w, Done (Inr m))
      | None \<Rightarrow> (w\<lparr>loadCalls := loadCalls w + 1\<rparr>, AwaitLoad))"
| "step env w AwaitLoad =
     (if stored w
      then (let m = nextId w in (w\<lparr>model := Some m, nextId := m + 1\<rparr>, Done (Inr m)))
      else (let newModel = nextId w in (w\<lparr>nextId := newModel + 1\<rparr>, AwaitData newModel)))"
| "step env w (AwaitData newModel) =
     (case dataLoad env of
        Some e \<Rightarrow> (w, Done (Inl (initFailure e)))
      | None \<Rightarrow> (w\<lparr>fitCalls := fitCalls w + 1\<rparr>, AwaitFit newModel))"
| "step env w (AwaitFit newModel) =
     (case fit env of
        Some e \<Rightarrow> (w, Done (Inl (initFailure e)))
      | None \<Rightarrow> (w, AwaitSave newModel))"
| "step env w (AwaitSave newModel) =
     (case save env of
        Some e \<Rightarrow> (w, Done (Inl (initFailure e)))
      | None \<Rightarrow> (w\<lparr>stored := True, model := Some newModel\<rparr>, Done (Inr newModel)))"
| "step env w (Done r) = (w, Done r)"

text \<open>
  Several calls in flight: the schedule names, step by step, the call that runs next.
\<close>

fun run :: "Env \<Rightarrow> nat list \<Rightarrow> World \<times> pc list \<Rightarrow> World \<times> pc list" where
  "run env [] c = c"
| "run env (i # sched) (w, calls) =
     (if i < length calls
      then (case step env w (calls ! i) of
              (w', p) \<Rightarrow> run env sched (w', calls[i := p]))
      else run env sched (w, calls))"





definition disposeModel :: "World \<Rightarrow> World" where
  "disposeModel w = (case model w of Some m \<Rightarrow> w\<lparr>model := None\<rparr> | None \<Rightarrow> w)"

record DigitPrediction =
  digit :: int
  confidence :: jsnum
  probabilities :: "jsnum list"

text \<open>
  \<open>preprocessForMNIST\<close>: pixels to tensor, resize, scale to \<open>[0, 1]\<close>, and invert when the
  mean exceeds 0.5.
\<close>

definition preprocessForMNIST :: "Env \<Rightarrow> ImageData \<Rightarrow> jsnum list" where
  "preprocessForMNIST env img =
     (let tensor = tfFromPixels env img;
          tensor = tfResizeBilinear env tensor;
          tensor = tfDiv255 env tensor;
          mean = tfMean env tensor
      in if jsGreater mean (Num 0.5) then tfSubFrom1 env tensor else tensor)"

text \<open>
  \<open>probabilities.indexOf(Math.max(...probabilities))\<close>. \<open>Math.max\<close> of no arguments is
  \<open>-Infinity\<close> and of arguments with a NaN is NaN; \<open>indexOf\<close> compares with \<open>===\<close>, under
  which NaN equals nothing, and gives \<open>-1\<close> when it finds no position.
\<close>

definition mathMaxOf :: "jsnum list \<Rightarrow> jsnum" where
  "mathMaxOf ps = fold (\<lambda>p m. mathMax m p) ps NegInfinity"

definition strictEquals :: "jsnum \<Rightarrow> jsnum \<Rightarrow> bool" where
  "strictEquals a b = (a \<noteq> NaN \<and> b \<noteq> NaN \<and> a = b)"

fun indexOf :: "jsnum list \<Rightarrow> jsnum \<Rightarrow> int" where
  "indexOf [] v = - 1"
| "indexOf (x # xs) v =
     (if strictEquals x v then 0 else (let r = indexOf xs v in if r < 0 then - 1 else r + 1))"

text \<open>
  \<open>predictDigit\<close> awaits \<open>loadMNISTModel()\<close> first and then runs the forward pass.
  With the digit \<open>-1\<close>, \<open>probabilities[digit]\<close> is \<open>undefined\<close> and the confidence
  \<open>undefined * 100\<close> is NaN.
\<close>

definition predictDigit :: "Env \<Rightarrow> World \<Rightarrow> jsnum list \<Rightarrow> (string + DigitPrediction) \<times> World" where
  "predictDigit env w inputTensor =
     (case loadMNISTModel env w of
        (Inl e, w') \<Rightarrow> (Inl e, w')
      | (Inr mnistModel, w') \<Rightarrow>
          (case predict env mnistModel inputTensor of
             Inl e \<Rightarrow> (Inl e, w')
           | Inr ps \<Rightarrow>
               (let d = indexOf ps (mathMaxOf ps);
                    c = (if 0 \<le> d \<and> nat d < length ps then jsMul (ps ! nat d) (Num 100) else NaN)
                in (Inr \<lparr>digit = d, confidence = c, probabilities = ps\<rparr>, w'))))"

definition predictDigitFromImage ::
  "Env \<Rightarrow> World \<Rightarrow> ImageData \<Rightarrow> (string + DigitPrediction) \<times> World" where
  "predictDigitFromImage env w img = predictDigit env w (preprocessForMNIST env img)"

section \<open>Recognition orchestrator (HandwrittenDigitRecognizer.tsx)\<close>

text \<open>
  \<open>DigitResult\<close> has the fields \<open>digit\<close>, \<open>confidence\<close> and \<open>bbox\<close> in the source; they are
  prefixed here because \<open>DigitPrediction\<close> and \<open>SegmentedDigit\<close> use the same names.
\<close>

record DigitResult =
  res_digit :: int
  res_confidence :: jsnum
  res_bbox :: BoundingBox

record HandwritingResult =
  digits :: "DigitResult list"
  combinedText :: string
  processingTime :: int
  preprocessedImage :: string

text \<open>What \<open>recognize\<close> does to the outside: the state setters and the two callbacks.\<close>

datatype event =
    SetStatus string
  | SetProgress jsnum
  | OnComplete HandwritingResult
  | OnError string

text \<open>Decimal notation of a natural number, as \<open>String(n)\<close> and template literals give it.\<close>

definition digitChar :: "nat \<Rightarrow> char" where
  "digitChar n = ''0123456789'' ! n"

function showNat :: "nat \<Rightarrow> string" where
  "showNat n = (if n < 10 then [digitChar n] else showNat (n div 10) @ [digitChar (n mod 10)])"
  by pat_completeness auto
termination
  by (relation "measure (\<lambda>n. n)") auto

declare showNat.simps [simp del]

text \<open>
  The flag \<open>cancelled\<close> is raised by the cleanup of the effect, which can run only while
  \<open>recognize\<close> is suspended in an \<open>await\<close>. The awaits are numbered: 0 for
  \<open>loadMNISTModel()\<close>, 1 for \<open>preprocessImage\<close>, 2 for the decoding of the preprocessed
  image, \<open>3 + i\<close> for the prediction of segment \<open>i\<close>. \<open>Some c\<close> says that the flag is raised
  during await \<open>c\<close>, \<open>None\<close> that it never is; \<open>cancelledAfter cancelAt k\<close> is the value of
  \<open>cancelled\<close> when \<open>recognize\<close> resumes from await \<open>k\<close>.
\<close>

definition cancelledAfter :: "nat option \<Rightarrow> nat \<Rightarrow> bool" where
  "cancelledAfter cancelAt k = (case cancelAt of None \<Rightarrow> False | Some c \<Rightarrow> c \<le> k)"

text \<open>The outer \<open>catch\<close>: silent when cancelled, otherwise \<open>onError\<close> with the message.\<close>

definition catchHandler :: "nat option \<Rightarrow> nat \<Rightarrow> string \<Rightarrow> event list" where
  "catchHandler cancelAt k e = (if cancelledAfter cancelAt k then [] else [OnError e])"

text \<open>
  The loop of step 5 from index \<open>i\<close> on, for \<open>n\<close> segments in all: progress, prediction,
  and the inner \<open>try\<close>/\<open>catch\<close> that records a failed prediction as digit \<open>-1\<close>.
\<close>

fun classifyAll ::
  "Env \<Rightarrow> SegmentedDigit list \<Rightarrow> nat \<Rightarrow> nat \<Rightarrow> World \<Rightarrow> event list \<times> DigitResult list \<times> World"
where
  "classifyAll env [] i n w = ([], [], w)"
| "classifyAll env (segment # rest) i n w =
     (case predictDigitFromImage env w (imageData segment) of
        (outcome, w1) \<Rightarrow>
          (let result =
                 (case outcome of
                    Inr prediction \<Rightarrow>
                      \<lparr>res_digit = digit prediction, res_confidence = confidence prediction,
                       res_bbox = bbox segment\<rparr>
                  | Inl err \<Rightarrow>
                      \<lparr>res_digit = - 1, res_confidence = Num 0, res_bbox = bbox segment\<rparr>)
           in case classifyAll env rest (i + 1) n w1 of
                (evs, results, w2) \<Rightarrow>
                  (SetProgress (jsAdd (Num 55) (jsMul (jsDiv (Num (real i)) (Num (real n))) (Num 40))) # evs,
                   result # results, w2)))"

definition joinDigits :: "DigitResult list \<Rightarrow> string" where
  "joinDigits results =
     concat (map (\<lambda>r. if res_digit r \<ge> 0 then showNat (nat (res_digit r)) else ''?'') results)"

definition recognize :: "Env \<Rightarrow> nat option \<Rightarrow> World \<Rightarrow> event list \<times> World" where
  "recognize env cancelAt w =
     (let ev0 = [SetStatus ''Loading AI model (first time may take 30-60s to train)...'',
                 SetProgress (Num 10)]
      in case loadMNISTModel env w of
           (Inl e, w1) \<Rightarrow> (ev0 @ catchHandler cancelAt 0 e, w1)
         | (Inr m, w1) \<Rightarrow>
             (let ev1 = ev0 @ [SetProgress (Num 25)]
              in if cancelledAfter cancelAt 0 then (ev1, w1)
                 else
                   (let ev2 = ev1 @ [SetStatus ''Preprocessing image...'', SetProgress (Num 35)]
                    in case preprocessed env of
                         Inl e \<Rightarrow> (ev2 @ catchHandler cancelAt 1 e, w1)
                       | Inr preprocessedImageUrl \<Rightarrow>
                           (let ev3 = ev2 @ [SetStatus ''Loading preprocessed image...'',
                                             SetProgress (Num 45)]
                            in case decoded env of
                                 Inl e \<Rightarrow> (ev3 @ catchHandler cancelAt 2 e, w1)
                               | Inr img \<Rightarrow>
                                   (let ev4 = ev3 @ [SetStatus ''Detecting digits...'',
                                                     SetProgress (Num 55)];
                                        segments = segmentDigits (canvas2d env) img
                                    in if segments = []
                                       then (ev4 @ [OnError ''No digits detected. Try adjusting the image or preprocessing.''], w1)
                                       else
                                         (let ev5 = ev4 @ [SetStatus (''Recognizing '' @ showNat (length segments) @ '' digit(s)...'')]
                                          in case classifyAll env segments 0 (length segments) w1 of
                                               (evs, results, w2) \<Rightarrow>
                                                 (ev5 @ evs @
                                                  [SetStatus ''Complete!'', SetProgress (Num 100),
                                                   OnComplete
                                                     \<lparr>digits = results,
                                                      combinedText = joinDigits results,
                                                      processingTime = endTime env - startTime env,
                                                      preprocessedImage = preprocessedImageUrl\<rparr>],
                                                  w2)))))))"

text \<open>The callbacks among the events of a run.\<close>

fun isCallback :: "event \<Rightarrow> bool" where
  "isCallback (OnComplete r) = True"
| "isCallback (OnError e) = True"
| "isCallback ev = False"

text \<open>
  For stating what the loop records: the \<open>DigitResult\<close> of one segment, given the world in
  which its prediction runs.
\<close>

definition resultOf :: "Env \<Rightarrow> World \<Rightarrow> SegmentedDigit \<Rightarrow> DigitResult" where
  "resultOf env w segment =
     (case fst (predictDigitFromImage env w (imageData segment)) of
        Inr prediction \<Rightarrow>
          \<lparr>res_digit = digit prediction, res_confidence = confidence prediction,
           res_bbox = bbox segment\<rparr>
      | Inl err \<Rightarrow> \<lparr>res_digit = - 1, res_confidence = Num 0, res_bbox = bbox segment\<rparr>)"

subsection \<open>A concrete environment\<close>

text \<open>
  \<open>envDemo\<close>: training never fails and the preprocessed image decodes to \<open>stacked\<close>. Its
  tensors are constant: 255 throughout for a patch of side 20 and 102 for any other, so
  the first patch of \<open>stacked\<close> becomes the zero tensor after the inversion and the second
  is left at \<open>102 / 255\<close>. The forward pass throws on the zero tensor and otherwise answers
  7 with probability \<open>55 / 64\<close>. \<open>freshWorld\<close> is a browser that has never run the
  application, \<open>readyWorld\<close> one in which model 0 is loaded and stored.
\<close>

definition demoProbabilities :: "jsnum list" where
  "demoProbabilities =
     [Num (1 / 64), Num (1 / 64), Num (1 / 64), Num (1 / 64), Num (1 / 64), Num (1 / 64),
      Num (1 / 64), Num (55 / 64), Num (1 / 64), Num (1 / 64)]"

definition envDemo :: Env where
  "envDemo =
     \<lparr>dataLoad = None, fit = None, save = None,
      tfFromPixels = (\<lambda>img. [Num (if width img = 20 then 255 else 102)]),
      tfResizeBilinear = (\<lambda>t. replicate 784 (hd t)),
      tfDiv255 = map (\<lambda>v. jsDiv v (Num 255)),
      tfMean = hd,
      tfSubFrom1 = map (\<lambda>v. jsSub (Num 1) v),
      predict = (\<lambda>m t. if hd t = Num 0 then Inl ''forward pass failed''
                         else Inr demoProbabilities),
      preprocessed = Inr ''data:image/png;base64,iVBORw0KGgo='',
      decoded = Inr stacked,
      canvas2d = blankCanvas,
      startTime = 1000,
      endTime = 1250\<rparr>"


definition readyWorld :: World where
  "readyWorld = \<lparr>model = Some 0, stored = True, nextId = 1, loadCalls = 1, fitCalls = 1\<rparr>"

section \<open>Properties of the number model\<close>

text \<open>
  Some values of the double arithmetic: \<open>0.1 + 0.2\<close> is \<open>0.30000000000000004\<close>,
  \<open>95 * 1.1\<close> is \<open>104.50000000000001\<close>, which a \<open>Uint8ClampedArray\<close> stores as 105,
  and \<open>1 / 3\<close> is \<open>0.3333333333333333\<close>.
\<close>

lemma double_arithmetic_examples:
  "jsAdd (roundDouble 0.1) (roundDouble 0.2) = Num (1351079888211149 / 4503599627370496)"
  "jsMul (Num 95) (roundDouble 1.1) = Num (7353533766565889 / 70368744177664)"
  "toUint8Clamp (jsMul (Num 95) (roundDouble 1.1)) = 105"
  "jsDiv (Num 1) (Num 3) = Num (6004799503160661 / 18014398509481984)"
  by code_simp+

section \<open>Properties of the filter loop\<close>

lemma roundHalfEven_range:
  assumes "0 \<le> v" "v \<le> 255"
  shows "0 \<le> roundHalfEven v \<and> roundHalfEven v \<le> 255"
proof -
  define f where "f = \<lfloor>v\<rfloor>"
  have f: "0 \<le> f" "f \<le> 255"
    using assms by (simp_all add: f_def floor_le_iff le_floor_iff)
  have top: "v < of_int f + 1 / 2" if "f = 255"
    using assms that by simp
  have "(if v < of_int f + 1 / 2 then f
         else if of_int f + 1 / 2 < v then f + 1
         else if even f then f else f + 1) \<le> 255"
  proof (cases "f = 255")
    case True
    then show ?thesis using top by simp
  next
    case False
    then have "f + 1 \<le> 255" using f by linarith
    then show ?thesis using f by auto
  qed
  moreover have "0 \<le> (if v < of_int f + 1 / 2 then f
         else if of_int f + 1 / 2 < v then f + 1
         else if even f then f else f + 1)"
    using f by auto
  ultimately show ?thesis
    unfolding roundHalfEven_def Let_def f_def [symmetric] by blast
qed

lemma toUint8Clamp_le: "toUint8Clamp v \<le> 255"
proof (cases v)
  case (Num x)
  show ?thesis
  proof (cases "x \<le> 0 \<or> 255 \<le> x")
    case True
    then show ?thesis using Num by auto
  next
    case False
    then have "roundHalfEven x \<le> 255" using roundHalfEven_range [of x] by simp
    then show ?thesis using Num False by simp
  qed
qed simp_all

lemma toUint8Clamp_exact: "toUint8Clamp (Num 0) = 0" "toUint8Clamp (Num 255) = 255"
  by simp_all

lemma length_applyFilters: "length (applyFilters opts xs) = length xs"
  by (induction opts xs rule: applyFilters.induct) (auto split: prod.splits)

lemma applyFilters_pixel:
  "4 * k + 3 < length xs \<Longrightarrow>
   applyFilters opts xs ! (4 * k) =
     toUint8Clamp (fst (filterPixel opts (Num (real (xs ! (4 * k)))) (Num (real (xs ! (4 * k + 1))))
                          (Num (real (xs ! (4 * k + 2)))))) \<and>
   applyFilters opts xs ! (4 * k + 1) =
     toUint8Clamp (fst (snd (filterPixel opts (Num (real (xs ! (4 * k)))) (Num (real (xs ! (4 * k + 1))))
                          (Num (real (xs ! (4 * k + 2))))))) \<and>
   applyFilters opts xs ! (4 * k + 2) =
     toUint8Clamp (snd (snd (filterPixel opts (Num (real (xs ! (4 * k)))) (Num (real (xs ! (4 * k + 1))))
                          (Num (real (xs ! (4 * k + 2))))))) \<and>
   applyFilters opts xs ! (4 * k + 3) = xs ! (4 * k + 3)"
proof (induction opts xs arbitrary: k rule: applyFilters.induct)
  case (1 opts r g b a rest)
  show ?case
  proof (cases k)
    case 0
    then show ?thesis by (simp split: prod.splits)
  next
    case (Suc j)
    have len: "4 * j + 3 < length rest" using "1.prems" Suc by simp
    have n: "(a1 # a2 # a3 # a4 # ys) ! (4 * k + c) = ys ! (4 * j + c)"
      for a1 a2 a3 a4 :: nat and ys c
      using Suc by simp
    have n0: "(a1 # a2 # a3 # a4 # ys) ! (4 * k) = ys ! (4 * j)"
      for a1 a2 a3 a4 :: nat and ys
      using Suc by simp
    obtain r' g' b' where fp:
      "filterPixel opts (Num (real r)) (Num (real g)) (Num (real b)) = (r', g', b')"
      by (cases "filterPixel opts (Num (real r)) (Num (real g)) (Num (real b))") auto
    from "1.IH" [OF fp [symmetric] refl len] show ?thesis
      by (simp only: applyFilters.simps fp prod.case n n0)
  qed
qed simp_all

lemma applyFilters_bytes:
  "\<forall>x\<in>set xs. x \<le> 255 \<Longrightarrow> \<forall>x\<in>set (applyFilters opts xs). x \<le> 255"
  by (induction opts xs rule: applyFilters.induct)
     (auto split: prod.splits simp: toUint8Clamp_le)

lemma clamp255_range:
  "clamp255 v = NaN \<or> (\<exists>x. clamp255 v = Num x \<and> 0 \<le> x \<and> x \<le> 255)"
  by (cases v) (auto simp: clamp255_def mathMax_def mathMin_def)

lemma filterPixel_plain:
  "threshold opts = None \<Longrightarrow>
   filterPixel opts r0 g0 b0 =
     (clamp255 (contrastBrightness opts (if grayscale opts then luma r0 g0 b0 else r0)),
      clamp255 (contrastBrightness opts (if grayscale opts then luma r0 g0 b0 else g0)),
      clamp255 (contrastBrightness opts (if grayscale opts then luma r0 g0 b0 else b0)))"
  by (simp add: filterPixel_def Let_def)

lemma filterPixel_threshold:
  "threshold opts = Some t \<Longrightarrow>
   filterPixel opts r0 g0 b0 =
     (if jsGreater
           (jsDiv
              (jsAdd
                 (jsAdd (clamp255 (contrastBrightness opts (if grayscale opts then luma r0 g0 b0 else r0)))
                        (clamp255 (contrastBrightness opts (if grayscale opts then luma r0 g0 b0 else g0))))
                 (clamp255 (contrastBrightness opts (if grayscale opts then luma r0 g0 b0 else b0))))
              (Num 3))
           t
      then (Num 255, Num 255, Num 255) else (Num 0, Num 0, Num 0))"
  by (simp add: filterPixel_def Let_def)

text \<open>
  Claim C8. For the pixel \<open>k\<close> of any sample array and any options, write \<open>src c\<close> for the
  value of channel \<open>c\<close> after the grayscale step (the luma when \<open>grayscale\<close> is on, the sample
  itself otherwise). The loop computes, identically for R, G and B,
  \<open>v' = clamp(((src - 128) * contrast + 128) * brightness, 0, 255)\<close> in double arithmetic;
  \<open>v'\<close> lies in \<open>[0, 255]\<close> unless it is NaN; without a threshold the stored sample is \<open>v'\<close>
  converted by the typed array (NaN is stored as 0); the alpha sample is untouched; and
  every sample of the output is in \<open>[0, 255]\<close>.
\<close>

theorem preprocess_contrast_brightness:
  assumes "4 * k + 3 < length samples" and "\<forall>x\<in>set samples. x \<le> 255"
  shows
    "let out = applyFilters opts samples;
         ch = (\<lambda>c. Num (real (samples ! (4 * k + c))));
         src = (\<lambda>c. if grayscale opts then luma (ch 0) (ch 1) (ch 2) else ch c);
         v' = (\<lambda>c. clamp255 (contrastBrightness opts (src c)))
     in (\<forall>c<3. v' c =
                   mathMax (Num 0)
                     (mathMin (Num 255)
                        (jsMul (jsAdd (jsMul (jsSub (src c) (Num 128)) (contrast opts)) (Num 128))
                               (brightness opts))) \<and>
                 (v' c = NaN \<or> (\<exists>x. v' c = Num x \<and> 0 \<le> x \<and> x \<le> 255))) \<and>
        (threshold opts = None \<longrightarrow> (\<forall>c<3. out ! (4 * k + c) = toUint8Clamp (v' c))) \<and>
        out ! (4 * k + 3) = samples ! (4 * k + 3) \<and>
        (\<forall>x\<in>set out. x \<le> 255)"
proof -
  have c3: "c = 0 \<or> c = 1 \<or> c = 2" if "c < 3" for c :: nat
    using that by auto
  have formula: "clamp255 (contrastBrightness opts v) =
      mathMax (Num 0)
        (mathMin (Num 255)
           (jsMul (jsAdd (jsMul (jsSub v (Num 128)) (contrast opts)) (Num 128))
                  (brightness opts)))" for v
    by (simp only: clamp255_def contrastBrightness_def)
  have plain: "threshold opts = None \<Longrightarrow> c < 3 \<Longrightarrow>
      applyFilters opts samples ! (4 * k + c) =
        toUint8Clamp (clamp255 (contrastBrightness opts
          (if grayscale opts
           then luma (Num (real (samples ! (4 * k + 0)))) (Num (real (samples ! (4 * k + 1))))
                  (Num (real (samples ! (4 * k + 2))))
           else Num (real (samples ! (4 * k + c))))))" for c
    using applyFilters_pixel [OF assms(1), of opts]
    by (auto dest!: c3 simp: filterPixel_plain)
  show ?thesis
    unfolding Let_def
    using plain applyFilters_pixel [OF assms(1), of opts] applyFilters_bytes [OF assms(2), of opts]
      clamp255_range formula
    by blast
qed

theorem preprocess_contrast_brightness_witness:
  "4 * 0 + 3 < length [106, 106, 106, 255::nat] \<and>
   list_all (\<lambda>x. x \<le> 255) [106, 106, 106, 255::nat] \<and>
   applyFilters optsDefault [106, 106, 106, 255] ! (4 * 0 + 1) = 105 \<and>
   clamp255 (contrastBrightness optsDefault (luma (Num 106) (Num 106) (Num 106))) =
     Num (7353533766565889 / 70368744177664)"
proof -
  have h: "4 * 0 + 3 < length [106, 106, 106, 255::nat]"
    "\<forall>x\<in>set [106, 106, 106, 255::nat]. x \<le> 255"
    by simp_all
  have n: "[106, 106, 106, 255::nat] ! (4 * 0 + 0) = 106"
    "[106, 106, 106, 255::nat] ! (4 * 0 + 1) = 106"
    "[106, 106, 106, 255::nat] ! (4 * 0 + 2) = 106"
    by simp_all
  have c: "real (106::nat) = 106" by simp
  have v: "clamp255 (contrastBrightness optsDefault (luma (Num 106) (Num 106) (Num 106))) =
     Num (7353533766565889 / 70368744177664)"
    by code_simp
  have r: "toUint8Clamp (Num (7353533766565889 / 70368744177664)) = 105" by code_simp
  have t: "threshold optsDefault = None" "grayscale optsDefault = True"
    by (simp_all add: optsDefault_def)
  note T = preprocess_contrast_brightness [OF h, of optsDefault, unfolded Let_def]
  from T [THEN conjunct2, THEN conjunct1, rule_format, OF t(1), of 1]
  have "applyFilters optsDefault [106, 106, 106, 255] ! (4 * 0 + 1) = 105"
    by (simp only: t if_True n c v r)
  then show ?thesis using v by simp
qed

text \<open>
  Claim C9. When a threshold is set, the three colour samples of every pixel are all 255
  if the average \<open>(r + g + b) / 3\<close> of the clamped R, G and B values, computed in double
  arithmetic, exceeds the threshold, and all 0 otherwise.
\<close>

theorem preprocess_threshold_binarizes:
  assumes "4 * k + 3 < length samples" and "threshold opts = Some t"
  shows
    "let out = applyFilters opts samples;
         ch = (\<lambda>c. Num (real (samples ! (4 * k + c))));
         src = (\<lambda>c. if grayscale opts then luma (ch 0) (ch 1) (ch 2) else ch c);
         v' = (\<lambda>c. clamp255 (contrastBrightness opts (src c)));
         avg = jsDiv (jsAdd (jsAdd (v' 0) (v' 1)) (v' 2)) (Num 3)
     in (out ! (4 * k), out ! (4 * k + 1), out ! (4 * k + 2)) =
          (if jsGreater avg t then (255, 255, 255) else (0, 0, 0))"
  using applyFilters_pixel [OF assms(1), of opts]
  unfolding Let_def
  by (simp add: filterPixel_threshold [OF assms(2)])

theorem preprocess_threshold_binarizes_witness:
  "4 * 0 + 3 < length [144, 226, 213, 255::nat] \<and>
   threshold optsNeutral = Some (Num 200) \<and>
   luma (Num 144) (Num 226) (Num 213) = Num (7036874417766401 / 35184372088832) \<and>
   applyFilters optsNeutral [144, 226, 213, 255] ! (4 * 0) = 255 \<and>
   applyFilters optsNeutral [144, 226, 213, 255] ! (4 * 0 + 1) = 255 \<and>
   applyFilters optsNeutral [144, 226, 213, 255] ! (4 * 0 + 2) = 255"
proof -
  have h: "4 * 0 + 3 < length [144, 226, 213, 255::nat]" by simp
  have n: "[144, 226, 213, 255::nat] ! (4 * 0 + 0) = 144"
    "[144, 226, 213, 255::nat] ! (4 * 0 + 1) = 226"
    "[144, 226, 213, 255::nat] ! (4 * 0 + 2) = 213"
    by simp_all
  have c: "real (144::nat) = 144" "real (226::nat) = 226" "real (213::nat) = 213" by simp_all
  have l: "luma (Num 144) (Num 226) (Num 213) = Num (7036874417766401 / 35184372088832)"
    by code_simp
  have v: "clamp255 (contrastBrightness optsNeutral (Num (7036874417766401 / 35184372088832))) =
             Num (7036874417766401 / 35184372088832)"
    by code_simp
  have a: "jsGreater
             (jsDiv (jsAdd (jsAdd (Num (7036874417766401 / 35184372088832))
                                  (Num (7036874417766401 / 35184372088832)))
                           (Num (7036874417766401 / 35184372088832)))
                    (Num 3))
             (Num 200) = True"
    by code_simp
  have t: "threshold optsNeutral = Some (Num 200)" "grayscale optsNeutral = True"
    by (simp_all add: optsNeutral_def)
  have "(applyFilters optsNeutral [144, 226, 213, 255] ! (4 * 0),
         applyFilters optsNeutral [144, 226, 213, 255] ! (4 * 0 + 1),
         applyFilters optsNeutral [144, 226, 213, 255] ! (4 * 0 + 2)) = (255, 255, 255)"
    using preprocess_threshold_binarizes [OF h t(1), unfolded Let_def]
    by (simp only: t if_True n c l v a)
  then show ?thesis using l t h by (simp only: prod.inject simp_thms)
qed

section \<open>Properties of the segmentation\<close>

lemma isForeground_index:
  assumes "0 \<le> y * width img + x"
  shows "isForeground img x y =
     (4 * nat (y * width img + x) < length (data img) \<and> data img ! (4 * nat (y * width img + x)) < 128)"
proof -
  have "nat ((y * width img + x) * 4) = 4 * nat (y * width img + x)"
    using assms by (simp add: nat_mult_distrib)
  then show ?thesis by (simp only: isForeground_def Let_def)
qed

lemma floodLoop_Nil: "floodLoop img [] st = st"
  by (simp add: floodLoop.simps)

lemma floodLoop_outside:
  "x < 0 \<or> x \<ge> width img \<or> y < 0 \<or> y \<ge> height img \<Longrightarrow>
   floodLoop img ((x, y) # stack) st = floodLoop img stack st"
  by (subst floodLoop.simps) simp

lemma floodLoop_skip:
  "0 \<le> x \<Longrightarrow> x < width img \<Longrightarrow> 0 \<le> y \<Longrightarrow> y < height img \<Longrightarrow>
   isVisited (visited st) (nat (y * width img + x)) \<or> \<not> isForeground img x y \<Longrightarrow>
   floodLoop img ((x, y) # stack) st = floodLoop img stack st"
  by (subst floodLoop.simps) (auto simp: Let_def)

lemma floodLoop_mark:
  "0 \<le> x \<Longrightarrow> x < width img \<Longrightarrow> 0 \<le> y \<Longrightarrow> y < height img \<Longrightarrow>
   \<not> isVisited (visited st) (nat (y * width img + x)) \<Longrightarrow> isForeground img x y \<Longrightarrow>
   floodLoop img ((x, y) # stack) st =
   floodLoop img ((x - 1, y + 1) # (x + 1, y - 1) # (x - 1, y - 1) # (x + 1, y + 1) #
                  (x, y - 1) # (x, y + 1) # (x - 1, y) # (x + 1, y) # stack)
     (markPixel st x y (nat (y * width img + x)))"
  by (subst floodLoop.simps) (simp add: Let_def markPixel_def)

lemma markPixel_simps:
  "visited (markPixel st x y idx) = markVisited (visited st) idx"
  "pixelCount (markPixel st x y idx) = pixelCount st + 1"
  "minX (markPixel st x y idx) = min (minX st) x"
  "maxX (markPixel st x y idx) = max (maxX st) x"
  "minY (markPixel st x y idx) = min (minY st) y"
  "maxY (markPixel st x y idx) = max (maxY st) y"
  by (simp_all add: markPixel_def)

text \<open>
  The pixel count of a flood fill is the number of pixels that it marks as visited, and
  it is at most the number of dark pixels that were not yet visited.
\<close>

lemma floodLoop_marks:
  "pixelCount (floodLoop img stack st) + card (unvisited img (visited (floodLoop img stack st)))
     = pixelCount st + card (unvisited img (visited st))"
proof (induction img stack st rule: floodLoop.induct)
  case (1 img st)
  then show ?case by (simp add: floodLoop_Nil)
next
  case (2 img x y stack st)
  show ?case
  proof (cases "x < 0 \<or> x \<ge> width img \<or> y < 0 \<or> y \<ge> height img")
    case True
    then show ?thesis using "2.IH"(1) by (simp add: floodLoop_outside)
  next
    case inr: False
    define idx where "idx = nat (y * width img + x)"
    show ?thesis
    proof (cases "isVisited (visited st) idx \<or> \<not> isForeground img x y")
      case True
      then have "floodLoop img ((x, y) # stack) st = floodLoop img stack st"
        using inr unfolding idx_def by (intro floodLoop_skip) simp_all
      then show ?thesis using "2.IH"(2) [OF inr idx_def True] by simp
    next
      case new: False
      let ?U = "unvisited img (visited st)"
      have "idx < nat (width img * height img)"
        unfolding idx_def using inr by (intro pixel_index_in_range) simp_all
      then have mem: "idx \<in> ?U" using new by (simp add: unvisited_def)
      then have "card (?U - {idx}) + 1 = card ?U"
        using finite_unvisited [of img "visited st"]
        by (metis Suc_eq_plus1 card_Suc_Diff1)
      then have step:
        "pixelCount (markPixel st x y idx) + card (unvisited img (visited (markPixel st x y idx)))
           = pixelCount st + card ?U"
        by (simp add: markPixel_simps unvisited_markVisited)
      have unfold: "floodLoop img ((x, y) # stack) st =
            floodLoop img ((x - 1, y + 1) # (x + 1, y - 1) # (x - 1, y - 1) # (x + 1, y + 1) #
                    (x, y - 1) # (x, y + 1) # (x - 1, y) # (x + 1, y) # stack)
              (markPixel st x y idx)"
        using inr new unfolding idx_def by (intro floodLoop_mark) simp_all
      show ?thesis
        unfolding unfold using "2.IH"(3) [OF inr idx_def new] step by simp
    qed
  qed
qed

lemma floodLoop_count:
  "pixelCount (floodLoop img stack st)
     \<le> pixelCount st + card (unvisited img (visited st) \<inter> inkIndices img)"
proof (induction img stack st rule: floodLoop.induct)
  case (1 img st)
  then show ?case by (simp add: floodLoop_Nil)
next
  case (2 img x y stack st)
  show ?case
  proof (cases "x < 0 \<or> x \<ge> width img \<or> y < 0 \<or> y \<ge> height img")
    case True
    then show ?thesis using "2.IH"(1) by (simp add: floodLoop_outside)
  next
    case inr: False
    define idx where "idx = nat (y * width img + x)"
    show ?thesis
    proof (cases "isVisited (visited st) idx \<or> \<not> isForeground img x y")
      case True
      then have "floodLoop img ((x, y) # stack) st = floodLoop img stack st"
        using inr unfolding idx_def by (intro floodLoop_skip) simp_all
      then show ?thesis using "2.IH"(2) [OF inr idx_def True] by simp
    next
      case new: False
      let ?U = "unvisited img (visited st) \<inter> inkIndices img"
      have range: "idx < nat (width img * height img)"
        unfolding idx_def using inr by (intro pixel_index_in_range) simp_all
      have nonneg: "0 \<le> y * width img + x" using inr by simp
      have "idx \<in> inkIndices img"
        using new range isForeground_index [OF nonneg]
        by (simp add: inkIndices_def idx_def)
      moreover have "idx \<in> unvisited img (visited st)"
        using new range by (simp add: unvisited_def)
      ultimately have mem: "idx \<in> ?U" by simp
      have fin: "finite ?U" using finite_unvisited by simp
      have "unvisited img (markVisited (visited st) idx) \<inter> inkIndices img = ?U - {idx}"
        by (auto simp: unvisited_markVisited)
      then have "card (unvisited img (markVisited (visited st) idx) \<inter> inkIndices img) = card ?U - 1"
        using mem fin by simp
      moreover have "card ?U \<ge> 1"
        using mem fin by (metis One_nat_def Suc_leI card_gt_0_iff empty_iff)
      ultimately have step:
        "pixelCount st + 1 + card (unvisited img (markVisited (visited st) idx) \<inter> inkIndices img)
          = pixelCount st + card ?U" by simp
      have unfold: "floodLoop img ((x, y) # stack) st =
            floodLoop img ((x - 1, y + 1) # (x + 1, y - 1) # (x - 1, y - 1) # (x + 1, y + 1) #
                    (x, y - 1) # (x, y + 1) # (x - 1, y) # (x + 1, y) # stack)
              (markPixel st x y idx)"
        using inr new unfolding idx_def by (intro floodLoop_mark) simp_all
      have "pixelCount (floodLoop img ((x, y) # stack) st)
            \<le> pixelCount (markPixel st x y idx)
                + card (unvisited img (visited (markPixel st x y idx)) \<inter> inkIndices img)"
        unfolding unfold
        using "2.IH"(3) [OF inr idx_def new] by (simp only: markPixel_def)
      then show ?thesis using step by (simp add: markPixel_simps)
    qed
  qed
qed

lemma floodFill_eq:
  "floodFill img vs x y =
     (let st = floodLoop img [(x, y)] (floodStart vs x y)
      in (if passesSizeFilter img st then Some (floodBox st) else None, visited st))"
  by (simp add: floodFill_def floodBox_def passesSizeFilter_def Let_def)

lemma scanPixels_floods:
  "snd (scanPixels img cs (vs, comps)) =
     comps @ map floodBox (filter (passesSizeFilter img) (scanFloods img cs vs))"
proof (induction cs arbitrary: vs comps)
  case Nil
  then show ?case by simp
next
  case (Cons c cs)
  obtain x y where c: "c = (x, y)" by (cases c)
  show ?case
  proof (cases "\<not> isVisited vs (nat (y * width img + x)) \<and> isForeground img x y")
    case False
    then have "scanPixels img (c # cs) (vs, comps) = scanPixels img cs (vs, comps)"
      and "scanFloods img (c # cs) vs = scanFloods img cs vs"
      unfolding c by (auto simp: Let_def)
    then show ?thesis using Cons.IH [of vs comps] by simp
  next
    case True
    define st where "st = floodLoop img [(x, y)] (floodStart vs x y)"
    have fl: "scanFloods img (c # cs) vs = st # scanFloods img cs (visited st)"
      unfolding c st_def using True by (simp add: Let_def)
    show ?thesis
    proof (cases "passesSizeFilter img st")
      case acc: True
      then have "floodFill img vs x y = (Some (floodBox st), visited st)"
        unfolding floodFill_eq st_def [symmetric] Let_def by simp
      then have "scanPixels img (c # cs) (vs, comps) =
                 scanPixels img cs (visited st, comps @ [floodBox st])"
        unfolding c using True by (simp add: Let_def)
      then show ?thesis
        using acc Cons.IH [of "visited st" "comps @ [floodBox st]"] by (simp add: fl)
    next
      case rej: False
      then have "floodFill img vs x y = (None, visited st)"
        unfolding floodFill_eq st_def [symmetric] Let_def by simp
      then have "scanPixels img (c # cs) (vs, comps) = scanPixels img cs (visited st, comps)"
        unfolding c using True by (simp add: Let_def)
      then show ?thesis
        using rej Cons.IH [of "visited st" comps] by (simp add: fl)
    qed
  qed
qed

lemma finite_inkIndices: "finite (inkIndices img)"
  by (simp add: inkIndices_def)

lemma scanFloods_count:
  "st \<in> set (scanFloods img cs vs) \<Longrightarrow> pixelCount st \<le> card (inkIndices img)"
proof (induction cs arbitrary: vs)
  case Nil
  then show ?case by simp
next
  case (Cons c cs)
  obtain x y where c: "c = (x, y)" by (cases c)
  have bound: "pixelCount (floodLoop img [(x, y)] (floodStart vs x y)) \<le> card (inkIndices img)"
  proof -
    have "card (unvisited img vs \<inter> inkIndices img) \<le> card (inkIndices img)"
      by (intro card_mono finite_inkIndices) simp
    then show ?thesis
      using floodLoop_count [of img "[(x, y)]" "floodStart vs x y"]
      by (simp add: floodStart_def)
  qed
  show ?case
    using Cons.prems Cons.IH bound
    by (auto simp: c Let_def split: if_splits)
qed

lemma findComponents_floods:
  "findComponents img = map floodBox (filter (passesSizeFilter img) (allFloods img))"
  unfolding findComponents_def allFloods_def
  by (simp only: scanPixels_floods append_Nil)

lemma few_ink_no_components:
  assumes "card (inkIndices img) < 50"
  shows "findComponents img = []"
proof -
  have "\<forall>st\<in>set (allFloods img). pixelCount st < 50"
    using scanFloods_count assms unfolding allFloods_def by fastforce
  then show ?thesis
    unfolding findComponents_floods by (simp add: filter_empty_conv passesSizeFilter_def)
qed

lemma empty_raster_no_components:
  assumes "width img \<le> 0 \<or> height img \<le> 0"
  shows "findComponents img = []"
proof -
  have "rasterCoords img = []"
    using assms by (auto simp: rasterCoords_def)
  then show ?thesis by (simp add: findComponents_def)
qed

lemma speck_ink:
  assumes "0 < width img" "0 < height img"
    and "\<forall>x y. 0 \<le> x \<and> x < width img \<and> 0 \<le> y \<and> y < height img \<longrightarrow>
             (isForeground img x y \<longleftrightarrow> px \<le> x \<and> x < px + 3 \<and> py \<le> y \<and> y < py + 3)"
  shows "card (inkIndices img) \<le> 9"
proof -
  let ?w = "width img"
  let ?sq = "{px..<px + 3} \<times> {py..<py + 3}"
  have sub: "inkIndices img \<subseteq> (\<lambda>(x, y). nat (y * ?w + x)) ` ?sq"
  proof
    fix idx assume ink: "idx \<in> inkIndices img"
    then have lt: "idx < nat (?w * height img)" by (simp add: inkIndices_def)
    define x where "x = int idx mod ?w"
    define y where "y = int idx div ?w"
    have xr: "0 \<le> x" "x < ?w" using assms(1) by (simp_all add: x_def)
    have y0: "0 \<le> y" using assms(1) by (simp add: y_def pos_imp_zdiv_nonneg_iff)
    have eq: "y * ?w + x = int idx" by (simp add: x_def y_def)
    have bound: "int idx < height img * ?w" using lt by (simp add: mult.commute)
    have yh: "y < height img"
    proof (rule ccontr)
      assume "\<not> y < height img"
      then have "height img * ?w \<le> y * ?w"
        using assms(1) by (intro mult_right_mono) simp_all
      then show False using bound eq xr by linarith
    qed
    have "isForeground img x y"
      using ink isForeground_index [of y img x] eq by (simp add: inkIndices_def)
    then have "(x, y) \<in> ?sq" using assms(3) xr y0 yh by simp
    moreover have "idx = nat (y * ?w + x)" using eq by simp
    ultimately show "idx \<in> (\<lambda>(x, y). nat (y * ?w + x)) ` ?sq"
      by (intro image_eqI [where x = "(x, y)"]) simp_all
  qed
  have "card ((\<lambda>(x, y). nat (y * ?w + x)) ` ?sq) \<le> card ?sq"
    by (intro card_image_le) simp
  also have "card ?sq = 9" by simp
  finally have "card ((\<lambda>(x, y). nat (y * ?w + x)) ` ?sq) \<le> 9" .
  moreover have "card (inkIndices img) \<le> card ((\<lambda>(x, y). nat (y * ?w + x)) ` ?sq)"
    by (intro card_mono sub) simp
  ultimately show ?thesis by simp
qed

lemma nth_concat_quads:
  assumes "\<forall>i<n. length (f i) = 4" and "i < n"
  shows "concat (map f [0..<n]) ! (4 * i) = f i ! 0 \<and> 4 * i < length (concat (map f [0..<n]))"
  using assms
proof (induction n)
  case 0
  then show ?case by simp
next
  case (Suc n)
  have len: "length (concat (map f [0..<n])) = 4 * n"
    using Suc.prems(1) by (induction n) (simp_all)
  show ?case
  proof (cases "i < n")
    case True
    then show ?thesis using Suc by (simp add: nth_append len)
  next
    case False
    then have "i = n" using Suc.prems by simp
    then show ?thesis using Suc.prems by (simp add: nth_append len)
  qed
qed

lemma isForeground_rasterOf:
  assumes "0 \<le> x" "x < w" "0 \<le> y" "y < h"
  shows "isForeground (rasterOf w h ink) x y = ink x y"
proof -
  let ?f = "\<lambda>i. if ink (int i mod w) (int i div w) then [0, 0, 0, 255] else [255, 255, 255, 255::nat]"
  have i: "nat (y * w + x) < nat (w * h)"
    using assms by (intro pixel_index_in_range) simp_all
  have q: "\<forall>i<nat (w * h). length (?f i) = 4" by simp
  have e: "nat ((y * w + x) * 4) = 4 * nat (y * w + x)"
    using assms by (simp add: nat_mult_distrib)
  have m: "int (nat (y * w + x)) mod w = x" "int (nat (y * w + x)) div w = y"
    using assms by simp_all
  define idx where "idx = nat (y * w + x)"
  define samples where "samples = concat (map ?f [0..<nat (w * h)])"
  have A: "samples ! (4 * idx) = ?f idx ! 0" and B: "4 * idx < length samples"
    using nth_concat_quads [OF q i] unfolding idx_def samples_def by blast+
  have C: "(?f idx ! 0 < 128) = ink x y"
    unfolding idx_def m by simp
  have "isForeground (rasterOf w h ink) x y = (4 * idx < length samples \<and> samples ! (4 * idx) < 128)"
    by (simp only: isForeground_def rasterOf_def Let_def ImageData.select_convs e idx_def samples_def)
  then show ?thesis using A B C by simp
qed

lemma stacked_dims: "width stacked = 16" "height stacked = 21"
  by (simp_all add: stacked_def rasterOf_def)

lemma stacked_ink:
  "0 \<le> x \<Longrightarrow> x < 16 \<Longrightarrow> 0 \<le> y \<Longrightarrow> y < 21 \<Longrightarrow>
   isForeground stacked x y = (inkL x y \<or> inkL x (y - 11))"
  unfolding stacked_def by (rule isForeground_rasterOf)

lemma isVisited_replicate: "isVisited (replicate n False) j = False"
  by (simp add: isVisited_def)

lemma floodLoop_step:
  "floodLoop img ((x, y) # stack) st =
     (if x < 0 \<or> x \<ge> width img \<or> y < 0 \<or> y \<ge> height img then floodLoop img stack st
      else if isVisited (visited st) (nat (y * width img + x)) \<or> \<not> isForeground img x y
           then floodLoop img stack st
           else floodLoop img
                   ((x - 1, y + 1) # (x + 1, y - 1) # (x - 1, y - 1) # (x + 1, y + 1) #
                    (x, y - 1) # (x, y + 1) # (x - 1, y) # (x + 1, y) # stack)
                   (markPixel st x y (nat (y * width img + x))))"
  by (subst floodLoop.simps) (simp add: Let_def)

lemma scanPixels_step:
  "scanPixels img ((x, y) # rest) (vs, comps) =
     (if \<not> isVisited vs (nat (y * width img + x)) \<and> isForeground img x y
      then scanAfter img rest comps (floodLoop img [(x, y)] (floodStart vs x y))
      else scanPixels img rest (vs, comps))"
  by (simp add: scanAfter_def floodFill_eq Let_def)

lemma stacked_components:
  "findComponents stacked =
     [\<lparr>box_x = 0, box_y = 0, box_width = 10, box_height = 10\<rparr>,
      \<lparr>box_x = 0, box_y = 11, box_width = 10, box_height = 10\<rparr>]"
  unfolding findComponents_def rasterCoords_def stacked_dims
  by (simp del: scanPixels.simps
        add: scanPixels_step scanAfter_def floodLoop_step floodLoop_Nil stacked_dims stacked_ink
             inkL_def isVisited_markVisited isVisited_replicate markPixel_def floodStart_def
             passesSizeFilter_def floodBox_def upto.simps scanPixels.simps(1))

text \<open>
  Claim C5. The boxes that \<open>segmentDigits\<close> emits are exactly those of the flood fills whose
  component is not rejected, where a component is rejected if and only if its pixel count
  is below 50, or the area of its bounding box exceeds 90% of the raster area, or its
  bounding box is less than 10 wide or less than 10 high. Consequently a raster whose
  foreground is one 3 \<times> 3 square yields no segment.
\<close>

theorem segment_rejection:
  "segmentDigits canvas img =
     map (extractDigit canvas img)
       (sort_key box_x
          (map floodBox
             (filter (\<lambda>st. \<not> (pixelCount st < 50 \<or>
                                real_of_int (box_width (floodBox st) * box_height (floodBox st))
                                  > real_of_int (width img * height img) * 0.9 \<or>
                                box_width (floodBox st) < 10 \<or>
                                box_height (floodBox st) < 10))
                (allFloods img)))) \<and>
   ((\<forall>x y. 0 \<le> x \<and> x < width img \<and> 0 \<le> y \<and> y < height img \<longrightarrow>
            (isForeground img x y \<longleftrightarrow> px \<le> x \<and> x < px + 3 \<and> py \<le> y \<and> y < py + 3)) \<longrightarrow>
    segmentDigits canvas img = [])"
proof (intro conjI impI)
  have "passesSizeFilter img =
        (\<lambda>st. \<not> (pixelCount st < 50 \<or>
                   real_of_int (box_width (floodBox st) * box_height (floodBox st))
                     > real_of_int (width img * height img) * 0.9 \<or>
                   box_width (floodBox st) < 10 \<or>
                   box_height (floodBox st) < 10))"
    by (rule ext) (simp only: passesSizeFilter_def)
  then show "segmentDigits canvas img =
     map (extractDigit canvas img)
       (sort_key box_x
          (map floodBox
             (filter (\<lambda>st. \<not> (pixelCount st < 50 \<or>
                                real_of_int (box_width (floodBox st) * box_height (floodBox st))
                                  > real_of_int (width img * height img) * 0.9 \<or>
                                box_width (floodBox st) < 10 \<or>
                                box_height (floodBox st) < 10))
                (allFloods img))))"
    by (simp only: segmentDigits_def findComponents_floods)
next
  assume sp: "\<forall>x y. 0 \<le> x \<and> x < width img \<and> 0 \<le> y \<and> y < height img \<longrightarrow>
            (isForeground img x y \<longleftrightarrow> px \<le> x \<and> x < px + 3 \<and> py \<le> y \<and> y < py + 3)"
  have "findComponents img = []"
  proof (cases "0 < width img \<and> 0 < height img")
    case True
    then have "card (inkIndices img) \<le> 9" using speck_ink sp by blast
    then show ?thesis by (intro few_ink_no_components) simp
  next
    case False
    then show ?thesis by (intro empty_raster_no_components) auto
  qed
  then show "segmentDigits canvas img = []" by (simp add: segmentDigits_def)
qed

theorem segment_rejection_witness:
  "segmentDigits blankCanvas speck = []"
proof -
  have dims: "width speck = 12" "height speck = 12"
    by (simp_all add: speck_def rasterOf_def)
  have "\<forall>x y. 0 \<le> x \<and> x < width speck \<and> 0 \<le> y \<and> y < height speck \<longrightarrow>
          (isForeground speck x y \<longleftrightarrow> 4 \<le> x \<and> x < 4 + 3 \<and> 4 \<le> y \<and> y < 4 + 3)"
    unfolding dims by (simp add: speck_def isForeground_rasterOf)
  then show ?thesis
    using segment_rejection [of blankCanvas speck 4 4] by blast
qed

lemma extractDigit_box_x: "box_x (bbox (extractDigit canvas img b)) = max 0 (box_x b - 5)"
  by (simp add: extractDigit_def Let_def)

text \<open>
  Claim C6, as amended. The segments are returned in ascending order of the left edge of
  their bounding boxes; the order is not strict, since two components can share a left
  edge (or have left edges that the padding clamps to the same value). \<open>segmentDigits\<close> is a
  function of the raster alone, so repeated runs agree.
\<close>

theorem segment_order:
  "sorted (map (\<lambda>d. box_x (bbox d)) (segmentDigits canvas img))"
proof -
  have mono: "sorted (map (\<lambda>b. max 0 (box_x b - 5)) bs)" if "sorted (map box_x bs)" for bs :: "BoundingBox list"
    using that by (induction bs) (auto simp: max_def)
  have "map (\<lambda>d. box_x (bbox d)) (segmentDigits canvas img) =
        map (\<lambda>b. max 0 (box_x b - 5)) (sort_key box_x (findComponents img))"
    by (simp add: segmentDigits_def extractDigit_box_x comp_def)
  then show ?thesis using mono [of "sort_key box_x (findComponents img)"] by simp
qed

text \<open>
  Claim C6 as stated fails: on \<open>stacked\<close> the two segments have the same left edge 0, so
  the order of the left edges is not strictly ascending.
\<close>

theorem segment_order_not_strict:
  "map (\<lambda>d. box_x (bbox d)) (segmentDigits blankCanvas stacked) = [0, 0] \<and>
   \<not> sorted_wrt (<) (map (\<lambda>d. box_x (bbox d)) (segmentDigits blankCanvas stacked))"
  by (simp add: segmentDigits_def stacked_components extractDigit_def Let_def)

text \<open>
  Claim C7 on \<open>stacked\<close>. The first component has the box \<open>(0, 0, 10, 10)\<close> in a raster
  of 16 \<times> 21 pixels; padding it by 5 on every side and clamping to the raster gives the box
  \<open>(0, 0, 15, 15)\<close>. \<open>segmentDigits\<close> returns \<open>(0, 0, 16, 20)\<close>: where the left or top
  edge is clamped, the full \<open>2 * padding\<close> is still added to the width or height.
\<close>

theorem segment_padding_left_clamped:
  "map bbox (segmentDigits blankCanvas stacked) =
     [\<lparr>box_x = 0, box_y = 0, box_width = 16, box_height = 20\<rparr>,
      \<lparr>box_x = 0, box_y = 6, box_width = 16, box_height = 15\<rparr>]"
  by (simp add: segmentDigits_def stacked_components extractDigit_def Let_def stacked_dims)

text \<open>
  The rest of C7 holds: the patch is square with the side of the larger padded dimension,
  the padded region is drawn with equal margins on both sides, and away from the left and
  top edges the box is the component box padded by 5 and clamped to the raster.
\<close>

lemma extractDigit_square:
  "width (imageData (extractDigit canvas img b)) = height (imageData (extractDigit canvas img b)) \<and>
   width (imageData (extractDigit canvas img b)) =
     max (box_width (bbox (extractDigit canvas img b))) (box_height (bbox (extractDigit canvas img b)))"
  by (simp add: extractDigit_def Let_def)

lemma extractDigit_interior:
  assumes "5 \<le> box_x b" "5 \<le> box_y b"
  shows "bbox (extractDigit canvas img b) =
     \<lparr>box_x = box_x b - 5, box_y = box_y b - 5,
      box_width = min (width img) (box_x b + box_width b + 5) - (box_x b - 5),
      box_height = min (height img) (box_y b + box_height b + 5) - (box_y b - 5)\<rparr>"
  using assms by (simp add: extractDigit_def Let_def min_def max_def)

lemma extractDigit_centred:
  "let d = extractDigit canvas img b;
       p = bbox d;
       s = width (imageData d);
       offsetX = real_of_int (s - box_width p) / 2;
       offsetY = real_of_int (s - box_height p) / 2
   in data (imageData d) =
        canvas img (box_x p) (box_y p) (box_width p) (box_height p) offsetX offsetY s \<and>
      offsetX + real_of_int (box_width p) + offsetX = real_of_int s \<and>
      offsetY + real_of_int (box_height p) + offsetY = real_of_int s \<and>
      0 \<le> offsetX \<and> 0 \<le> offsetY"
proof -
  define pw where "pw = min (width img - max 0 (box_x b - 5)) (box_width b + 5 * 2)"
  define ph where "ph = min (height img - max 0 (box_y b - 5)) (box_height b + 5 * 2)"
  have mid: "real_of_int (s - q) / 2 + real_of_int q + real_of_int (s - q) / 2 = real_of_int s"
    for s q :: int
    by (simp add: field_simps)
  have d: "extractDigit canvas img b =
      \<lparr>bbox = \<lparr>box_x = max 0 (box_x b - 5), box_y = max 0 (box_y b - 5),
                box_width = pw, box_height = ph\<rparr>,
       imageData = \<lparr>width = max pw ph, height = max pw ph,
                    data = canvas img (max 0 (box_x b - 5)) (max 0 (box_y b - 5)) pw ph
                             (real_of_int (max pw ph - pw) / 2)
                             (real_of_int (max pw ph - ph) / 2) (max pw ph)\<rparr>\<rparr>"
    by (simp only: extractDigit_def Let_def pw_def ph_def)
  have nonneg: "0 \<le> real_of_int (max pw ph - pw) / 2" "0 \<le> real_of_int (max pw ph - ph) / 2"
    by simp_all
  show ?thesis
    unfolding Let_def d
    using mid [of "max pw ph" pw] mid [of "max pw ph" ph] nonneg
    by (simp only: SegmentedDigit.select_convs ImageData.select_convs BoundingBox.select_convs
          simp_thms)
qed

section \<open>Properties of the classifier service\<close>

lemma loadMNISTModel_cached:
  "model w = Some m \<Longrightarrow> loadMNISTModel env w = (Inr m, w)"
  by (simp add: loadMNISTModel_def)

lemma loadMNISTModel_success:
  "loadMNISTModel env w = (Inr m, w') \<Longrightarrow> model w' = Some m"
  by (auto simp: loadMNISTModel_def Let_def split: option.splits if_splits)



lemma run_step:
  assumes "i < length calls" "step env w (calls ! i) = (w', p')"
  shows "run env (i # sched) (w, calls) = run env sched (w', calls[i := p'])"
  using assms by simp

lemma run_skip:
  assumes "\<not> i < length calls"
  shows "run env (i # sched) (w, calls) = run env sched (w, calls)"
  using assms by simp









lemma loadMNISTModel_failure:
  "loadMNISTModel env w = (Inl e, w') \<Longrightarrow> model w' = None \<and> (\<exists>msg. e = initFailure msg)"
  by (auto simp: loadMNISTModel_def Let_def split: option.splits if_splits)

lemma loadMNISTModel_counts:
  "model w = None \<Longrightarrow> loadCalls (snd (loadMNISTModel env w)) = loadCalls w + 1"
  "loadCalls (snd (loadMNISTModel env w)) \<le> loadCalls w + 1"
  "fitCalls (snd (loadMNISTModel env w)) \<le> fitCalls w + 1"
  by (auto simp: loadMNISTModel_def Let_def split: option.splits if_splits)

lemma run_alone:
  "run env [0, 0, 0, 0, 0] (w, [Start]) =
     (snd (loadMNISTModel env w), [Done (fst (loadMNISTModel env w))])"
  by (auto simp: loadMNISTModel_def Let_def split: option.splits)












lemma predictDigit_ready:
  "model w = Some m \<Longrightarrow> snd (predictDigit env w t) = w"
  by (simp add: predictDigit_def loadMNISTModel_cached Let_def split: sum.splits)

text \<open>
  Claim C1, as amended. When no model is cached, \<open>predictDigit\<close> runs \<open>loadMNISTModel\<close>
  itself (one more call of \<open>tf.loadLayersModel\<close>). If that load-or-train fails, the call
  fails with the \<open>Failed to initialize MNIST model\<close> message and the cache stays empty;
  otherwise the new model is cached and the call fails exactly when the forward pass
  throws.
\<close>

theorem classify_loads_lazily:
  assumes "model w = None"
  shows "loadCalls (snd (predictDigit env w t)) = loadCalls w + 1 \<and>
         (case loadMNISTModel env w of
            (Inl e, w') \<Rightarrow>
              predictDigit env w t = (Inl e, w') \<and> model w' = None \<and> (\<exists>msg. e = initFailure msg)
          | (Inr m, w') \<Rightarrow>
              model w' = Some m \<and> snd (predictDigit env w t) = w' \<and>
              (isl (fst (predictDigit env w t)) \<longleftrightarrow> isl (predict env m t)))"
proof -
  obtain r w' where l: "loadMNISTModel env w = (r, w')" by (cases "loadMNISTModel env w")
  have s: "snd (predictDigit env w t) = w'"
    using l by (simp add: predictDigit_def Let_def split: sum.splits)
  have c: "loadCalls w' = loadCalls w + 1"
    using loadMNISTModel_counts(1) [OF assms, of env] l by simp
  show ?thesis
  proof (cases r)
    case (Inl e)
    then show ?thesis
      using l s c loadMNISTModel_failure [of env w e w']
      by (simp add: predictDigit_def)
  next
    case (Inr m)
    then show ?thesis
      using l s c loadMNISTModel_success [of env w m w']
      by (simp add: predictDigit_def Let_def split: sum.splits)
  qed
qed

lemma demo_arithmetic:
  "roundDouble (2 / 5) = Num (3602879701896397 / 9007199254740992)"
  "roundDouble 1 = Num 1"
  "jsSub (Num 1) (Num 1) = Num 0"
  by code_simp+

lemma demo_tensor_second:
  "preprocessForMNIST envDemo \<lparr>width = 16, height = 16, data = d\<rparr> =
     replicate 784 (Num (3602879701896397 / 9007199254740992))"
  by (simp add: preprocessForMNIST_def envDemo_def Let_def demo_arithmetic)

lemma demo_tensor_first:
  "preprocessForMNIST envDemo \<lparr>width = 20, height = 20, data = d\<rparr> = replicate 784 (Num 0)"
  by (simp add: preprocessForMNIST_def envDemo_def Let_def demo_arithmetic)

lemma demo_digit:
  "indexOf demoProbabilities (mathMaxOf demoProbabilities) = 7"
  "length demoProbabilities = 10"
  "jsMul (demoProbabilities ! 7) (Num 100) = Num (1375 / 16)"
  by code_simp+

lemma demo_predict:
  "predict envDemo m (replicate 784 (Num (3602879701896397 / 9007199254740992))) =
     Inr demoProbabilities"
  "predict envDemo m (replicate 784 (Num 0)) = Inl ''forward pass failed''"
  by (simp_all add: envDemo_def)

theorem classify_loads_lazily_witness:
  "model (disposeModel readyWorld) = None \<and>
   predictDigit envDemo (disposeModel readyWorld) (replicate 784 (Num (3602879701896397 / 9007199254740992))) =
     (Inr \<lparr>digit = 7, confidence = Num (1375 / 16), probabilities = demoProbabilities\<rparr>,
      \<lparr>model = Some 1, stored = True, nextId = 2, loadCalls = 2, fitCalls = 1\<rparr>)"
proof -
  have a: "model (disposeModel readyWorld) = None"
    by (simp add: disposeModel_def readyWorld_def)
  have l: "loadMNISTModel envDemo (disposeModel readyWorld) =
           (Inr 1, \<lparr>model = Some 1, stored = True, nextId = 2, loadCalls = 2, fitCalls = 1\<rparr>)"
    by (simp add: loadMNISTModel_def disposeModel_def readyWorld_def)
  note p = demo_predict(1) demo_digit
  have f: "fst (predictDigit envDemo (disposeModel readyWorld) (replicate 784 (Num (3602879701896397 / 9007199254740992)))) =
     Inr \<lparr>digit = 7, confidence = Num (1375 / 16), probabilities = demoProbabilities\<rparr>"
    by (simp add: predictDigit_def l p Let_def)
  show ?thesis
    using classify_loads_lazily [OF a, of envDemo "replicate 784 (Num (3602879701896397 / 9007199254740992))"] a f
    by (simp add: l prod_eq_iff)
qed

text \<open>
  Claim C1 as stated fails: after \<open>disposeModel\<close> the next \<open>predictDigit\<close> does not fail; it
  loads the stored model again and classifies with it.
\<close>

theorem classify_after_dispose_succeeds:
  "model (disposeModel readyWorld) = None \<and>
   fst (predictDigit envDemo (disposeModel readyWorld) (replicate 784 (Num (3602879701896397 / 9007199254740992)))) =
     Inr \<lparr>digit = 7, confidence = Num (1375 / 16), probabilities = demoProbabilities\<rparr> \<and>
   loadCalls (snd (predictDigit envDemo (disposeModel readyWorld) (replicate 784 (Num (3602879701896397 / 9007199254740992))))) =
     loadCalls readyWorld + 1"
  by (simp add: predictDigit_def loadMNISTModel_def disposeModel_def readyWorld_def demo_predict
        demo_digit Let_def)

section \<open>Properties of the orchestrator\<close>

lemma showNat_digit: "n < 10 \<Longrightarrow> showNat n = [digitChar n]"
  by (subst showNat.simps) simp

lemma indexOf_bounds: "- 1 \<le> indexOf xs v \<and> indexOf xs v < int (length xs)"
  by (induction xs) (auto simp: Let_def)

lemma classifyAll_ready:
  assumes "model w = Some m"
  shows "classifyAll env segments i n w =
     (map (\<lambda>k. SetProgress (jsAdd (Num 55) (jsMul (jsDiv (Num (real k)) (Num (real n))) (Num 40)))) [i..<i + length segments],
      map (resultOf env w) segments, w)"
proof (induction segments arbitrary: i)
  case Nil
  then show ?case by simp
next
  case (Cons segment rest)
  define outcome where "outcome = fst (predictDigitFromImage env w (imageData segment))"
  have o: "predictDigitFromImage env w (imageData segment) = (outcome, w)"
    using predictDigit_ready [OF assms, of env]
    by (simp add: predictDigitFromImage_def outcome_def prod_eq_iff)
  have u: "[i..<i + length (segment # rest)] = i # [i + 1..<i + 1 + length rest]"
    by (subst upt_rec) simp
  show ?case
    unfolding u using Cons.IH [of "i + 1"]
    by (simp add: o resultOf_def Let_def)
qed

lemma resultOf_digit_range:
  assumes "\<forall>h t ps. predict env h t = Inr ps \<longrightarrow> length ps = 10"
  shows "- 1 \<le> res_digit (resultOf env w segment) \<and> res_digit (resultOf env w segment) \<le> 9"
proof -
  have "- 1 \<le> digit p \<and> digit p \<le> 9"
    if "fst (predictDigitFromImage env w (imageData segment)) = Inr p" for p
  proof -
    from that obtain h t ps where "predict env h t = Inr ps" and d: "digit p = indexOf ps (mathMaxOf ps)"
      by (auto simp: predictDigitFromImage_def predictDigit_def Let_def
               split: prod.splits sum.splits)
    then have "length ps = 10" using assms by blast
    then show ?thesis using indexOf_bounds [of ps "mathMaxOf ps"] d by simp
  qed
  then show ?thesis
    by (auto simp: resultOf_def split: sum.splits)
qed

lemma joinDigits_chars:
  assumes "\<forall>r\<in>set results. - 1 \<le> res_digit r \<and> res_digit r \<le> 9"
  shows "joinDigits results =
     map (\<lambda>r. if 0 \<le> res_digit r then digitChar (nat (res_digit r)) else CHR ''?'') results"
  using assms
proof (induction results)
  case Nil
  then show ?case by (simp add: joinDigits_def)
next
  case (Cons r results)
  then have "joinDigits results =
     map (\<lambda>r. if 0 \<le> res_digit r then digitChar (nat (res_digit r)) else CHR ''?'') results"
    by simp
  moreover have "res_digit r \<le> 9" using Cons.prems by simp
  then have "nat (res_digit r) < 10" by linarith
  ultimately show ?case
    by (simp add: joinDigits_def showNat_digit)
qed

lemma recognize_classifying:
  assumes load: "loadMNISTModel env w = (Inr m, w1)"
    and nc: "\<not> cancelledAfter cancelAt 0"
    and pre: "preprocessed env = Inr url"
    and dec: "decoded env = Inr img"
    and segs: "segmentDigits (canvas2d env) img = segments" "segments \<noteq> []"
  shows "filter isCallback (fst (recognize env cancelAt w)) =
           [OnComplete \<lparr>digits = map (resultOf env w1) segments,
                        combinedText = joinDigits (map (resultOf env w1) segments),
                        processingTime = endTime env - startTime env,
                        preprocessedImage = url\<rparr>] \<and>
         snd (recognize env cancelAt w) = w1"
proof -
  have ready: "model w1 = Some m" using load by (rule loadMNISTModel_success)
  show ?thesis
    unfolding recognize_def Let_def
    using nc segs
    by (simp add: load pre dec classifyAll_ready [OF ready])
qed

text \<open>
  Claim C4. Let \<open>recognize\<close> reach the classification loop with a non-empty list of
  segments, and let every probability vector of the classifier have ten entries. Then the
  run ends with \<open>onComplete\<close> and no \<open>onError\<close>; the result has one entry per segment, in
  segment order, with that segment's box; a segment whose prediction throws is recorded as
  digit \<open>-1\<close> with confidence 0 and the others carry their predicted digit and confidence;
  and \<open>combinedText\<close> has, in the same order, the character of each digit or \<open>?\<close> for
  \<open>-1\<close>, so its length is the number of segments.
\<close>

theorem recognize_partial_failure:
  assumes load: "loadMNISTModel env w = (Inr m, w1)"
    and nc: "\<not> cancelledAfter cancelAt 0"
    and pre: "preprocessed env = Inr url"
    and dec: "decoded env = Inr img"
    and segs: "segmentDigits (canvas2d env) img = segments" "segments \<noteq> []"
    and contract: "\<forall>h t ps. predict env h t = Inr ps \<longrightarrow> length ps = 10"
  shows "\<exists>r. filter isCallback (fst (recognize env cancelAt w)) = [OnComplete r] \<and>
           length (digits r) = length segments \<and>
           (\<forall>j<length segments.
              res_bbox (digits r ! j) = bbox (segments ! j) \<and>
              (case fst (predictDigitFromImage env w1 (imageData (segments ! j))) of
                 Inl e \<Rightarrow> res_digit (digits r ! j) = - 1 \<and> res_confidence (digits r ! j) = Num 0
               | Inr p \<Rightarrow> res_digit (digits r ! j) = digit p \<and>
                          res_confidence (digits r ! j) = confidence p)) \<and>
           combinedText r =
             map (\<lambda>d. if 0 \<le> res_digit d then digitChar (nat (res_digit d)) else CHR ''?'')
               (digits r) \<and>
           length (combinedText r) = length segments"
proof -
  let ?results = "map (resultOf env w1) segments"
  define r where "r = \<lparr>digits = ?results, combinedText = joinDigits ?results,
             processingTime = endTime env - startTime env, preprocessedImage = url\<rparr>"
  have d: "digits r = ?results" and c: "combinedText r = joinDigits ?results"
    by (simp_all add: r_def)
  have cb: "filter isCallback (fst (recognize env cancelAt w)) = [OnComplete r]"
    using recognize_classifying [OF load nc pre dec segs] by (simp add: r_def)
  have digit_range: "\<forall>r\<in>set ?results. - 1 \<le> res_digit r \<and> res_digit r \<le> 9"
    using resultOf_digit_range [OF contract] by simp
  have joined: "joinDigits ?results =
     map (\<lambda>d. if 0 \<le> res_digit d then digitChar (nat (res_digit d)) else CHR ''?'') ?results"
    using joinDigits_chars [OF digit_range] .
  have each: "res_bbox (?results ! j) = bbox (segments ! j) \<and>
              (case fst (predictDigitFromImage env w1 (imageData (segments ! j))) of
                 Inl e \<Rightarrow> res_digit (?results ! j) = - 1 \<and> res_confidence (?results ! j) = Num 0
               | Inr p \<Rightarrow> res_digit (?results ! j) = digit p \<and>
                          res_confidence (?results ! j) = confidence p)"
    if "j < length segments" for j
    using that by (simp add: resultOf_def split: sum.splits)
  have "length (digits r) = length segments" by (simp add: d)
  moreover have "combinedText r =
      map (\<lambda>d. if 0 \<le> res_digit d then digitChar (nat (res_digit d)) else CHR ''?'') (digits r)"
    unfolding d c using joined .
  moreover have "length (combinedText r) = length segments"
    unfolding c joined by simp
  moreover have "\<forall>j<length segments.
              res_bbox (digits r ! j) = bbox (segments ! j) \<and>
              (case fst (predictDigitFromImage env w1 (imageData (segments ! j))) of
                 Inl e \<Rightarrow> res_digit (digits r ! j) = - 1 \<and> res_confidence (digits r ! j) = Num 0
               | Inr p \<Rightarrow> res_digit (digits r ! j) = digit p \<and>
                          res_confidence (digits r ! j) = confidence p)"
    unfolding d using each by blast
  ultimately show ?thesis using cb by blast
qed

lemma stacked_segments:
  "segmentDigits blankCanvas stacked =
     [\<lparr>bbox = \<lparr>box_x = 0, box_y = 0, box_width = 16, box_height = 20\<rparr>,
       imageData = \<lparr>width = 20, height = 20, data = replicate 1600 255\<rparr>\<rparr>,
      \<lparr>bbox = \<lparr>box_x = 0, box_y = 6, box_width = 16, box_height = 15\<rparr>,
       imageData = \<lparr>width = 16, height = 16, data = replicate 1024 255\<rparr>\<rparr>]"
  by (simp add: segmentDigits_def stacked_components extractDigit_def Let_def stacked_dims
        blankCanvas_def)

lemma demo_first_fails:
  "fst (predictDigitFromImage envDemo readyWorld \<lparr>width = 20, height = 20, data = d\<rparr>) =
     Inl ''forward pass failed''"
proof -
  show ?thesis
    by (simp add: predictDigitFromImage_def predictDigit_def demo_tensor_first demo_predict
          loadMNISTModel_def readyWorld_def)
qed

lemma demo_second_seven:
  "fst (predictDigitFromImage envDemo readyWorld \<lparr>width = 16, height = 16, data = d\<rparr>) =
     Inr \<lparr>digit = 7, confidence = Num (1375 / 16), probabilities = demoProbabilities\<rparr>"
proof -
  show ?thesis
    by (simp add: predictDigitFromImage_def predictDigit_def demo_tensor_second demo_predict
          demo_digit loadMNISTModel_def readyWorld_def Let_def)
qed

lemma demo_facts:
  "loadMNISTModel envDemo readyWorld = (Inr 0, readyWorld)"
  "preprocessed envDemo = Inr ''data:image/png;base64,iVBORw0KGgo=''"
  "decoded envDemo = Inr stacked"
  "canvas2d envDemo = blankCanvas"
  "endTime envDemo - startTime envDemo = 250"
  by (simp_all add: envDemo_def loadMNISTModel_def readyWorld_def)

lemma demo_contract: "\<forall>h t ps. predict envDemo h t = Inr ps \<longrightarrow> length ps = 10"
  by (auto simp: envDemo_def demo_digit split: if_splits)

lemma recognize_demo:
  assumes "\<not> cancelledAfter cancelAt 0"
  shows "filter isCallback (fst (recognize envDemo cancelAt readyWorld)) =
     [OnComplete
        \<lparr>digits = [\<lparr>res_digit = - 1, res_confidence = Num 0,
                     res_bbox = \<lparr>box_x = 0, box_y = 0, box_width = 16, box_height = 20\<rparr>\<rparr>,
                    \<lparr>res_digit = 7, res_confidence = Num (1375 / 16),
                     res_bbox = \<lparr>box_x = 0, box_y = 6, box_width = 16, box_height = 15\<rparr>\<rparr>],
         combinedText = ''?7'',
         processingTime = 250,
         preprocessedImage = ''data:image/png;base64,iVBORw0KGgo=''\<rparr>]"
proof -
  have s: "segmentDigits (canvas2d envDemo) stacked = segmentDigits blankCanvas stacked"
    by (simp add: demo_facts)
  have ne: "segmentDigits blankCanvas stacked \<noteq> []" by (simp add: stacked_segments)
  have seven: "showNat 7 = ''7''"
    by (simp add: showNat_digit digitChar_def)
  show ?thesis
    using recognize_classifying [OF demo_facts(1) assms demo_facts(2) demo_facts(3) s ne]
    by (simp add: stacked_segments resultOf_def demo_first_fails demo_second_seven
          joinDigits_def seven demo_facts)
qed

theorem recognize_partial_failure_witness:
  "loadMNISTModel envDemo readyWorld = (Inr 0, readyWorld) \<and>
   \<not> cancelledAfter None 0 \<and>
   preprocessed envDemo = Inr ''data:image/png;base64,iVBORw0KGgo='' \<and>
   decoded envDemo = Inr stacked \<and>
   length (segmentDigits (canvas2d envDemo) stacked) = 2 \<and>
   (\<exists>r. filter isCallback (fst (recognize envDemo None readyWorld)) = [OnComplete r] \<and>
        res_digit (digits r ! 0) = - 1 \<and> res_confidence (digits r ! 0) = Num 0 \<and>
        res_digit (digits r ! 1) = 7 \<and>
        length (combinedText r) = 2)"
proof -
  let ?segments = "segmentDigits blankCanvas stacked"
  have nc: "\<not> cancelledAfter None 0" by (simp add: cancelledAfter_def)
  have s: "segmentDigits (canvas2d envDemo) stacked = ?segments"
    by (simp add: demo_facts)
  have ne: "?segments \<noteq> []" and len: "length ?segments = 2"
    by (simp_all add: stacked_segments)
  have o0: "fst (predictDigitFromImage envDemo readyWorld (imageData (?segments ! 0))) =
              Inl ''forward pass failed''"
    by (simp add: stacked_segments demo_first_fails)
  have o1: "fst (predictDigitFromImage envDemo readyWorld (imageData (?segments ! 1))) =
     Inr \<lparr>digit = 7, confidence = Num (1375 / 16), probabilities = demoProbabilities\<rparr>"
    by (simp add: stacked_segments demo_second_seven)
  from recognize_partial_failure
         [OF demo_facts(1) nc demo_facts(2) demo_facts(3) s ne demo_contract]
  obtain r where r: "filter isCallback (fst (recognize envDemo None readyWorld)) = [OnComplete r]"
    and each: "\<forall>j<length ?segments.
              res_bbox (digits r ! j) = bbox (?segments ! j) \<and>
              (case fst (predictDigitFromImage envDemo readyWorld (imageData (?segments ! j))) of
                 Inl e \<Rightarrow> res_digit (digits r ! j) = - 1 \<and> res_confidence (digits r ! j) = Num 0
               | Inr p \<Rightarrow> res_digit (digits r ! j) = digit p \<and>
                          res_confidence (digits r ! j) = confidence p)"
    and l: "length (combinedText r) = length ?segments"
    by blast
  have "res_digit (digits r ! 0) = - 1 \<and> res_confidence (digits r ! 0) = Num 0"
    using each [rule_format, of 0] len unfolding o0 by simp
  moreover have "res_digit (digits r ! 1) = 7"
    using each [rule_format, of 1] len unfolding o1 by simp
  ultimately show ?thesis
    using r l len nc s demo_facts by auto
qed

text \<open>
  Cancellation. The flag is read only right after \<open>loadMNISTModel()\<close> and in the outer
  \<open>catch\<close>: a run cancelled during the model load calls neither callback.
\<close>

lemma recognize_cancelled_during_load:
  assumes "cancelledAfter cancelAt 0"
  shows "filter isCallback (fst (recognize env cancelAt w)) = []"
  using assms
  by (simp add: recognize_def Let_def catchHandler_def split: prod.splits sum.splits)

lemma speck_segments: "segmentDigits canvas speck = []"
proof -
  have dims: "width speck = 12" "height speck = 12"
    by (simp_all add: speck_def rasterOf_def)
  have "\<forall>x y. 0 \<le> x \<and> x < width speck \<and> 0 \<le> y \<and> y < height speck \<longrightarrow>
          (isForeground speck x y \<longleftrightarrow> 4 \<le> x \<and> x < 4 + 3 \<and> 4 \<le> y \<and> y < 4 + 3)"
    unfolding dims by (simp add: speck_def isForeground_rasterOf)
  then have "card (inkIndices speck) \<le> 9"
    using speck_ink [of speck 4 4] by (simp add: dims)
  then have "findComponents speck = []"
    by (intro few_ink_no_components) simp
  then show ?thesis by (simp add: segmentDigits_def)
qed

text \<open>
  Claim C3 on two runs. In the first the flag is raised while the first of two digits is
  being classified (await 3): the loop goes on, the second digit is classified and
  \<open>onComplete\<close> is called with both results. In the second the flag is raised during
  preprocessing (await 1) of an image without digits: \<open>onError\<close> is called. The claim
  says that neither callback is called in either run.
\<close>

theorem recognize_completes_after_cancel:
  "filter isCallback (fst (recognize envDemo (Some 3) readyWorld)) =
     [OnComplete
        \<lparr>digits = [\<lparr>res_digit = - 1, res_confidence = Num 0,
                     res_bbox = \<lparr>box_x = 0, box_y = 0, box_width = 16, box_height = 20\<rparr>\<rparr>,
                    \<lparr>res_digit = 7, res_confidence = Num (1375 / 16),
                     res_bbox = \<lparr>box_x = 0, box_y = 6, box_width = 16, box_height = 15\<rparr>\<rparr>],
         combinedText = ''?7'',
         processingTime = 250,
         preprocessedImage = ''data:image/png;base64,iVBORw0KGgo=''\<rparr>] \<and>
   filter isCallback (fst (recognize (envDemo\<lparr>decoded := Inr speck\<rparr>) (Some 1) readyWorld)) =
     [OnError ''No digits detected. Try adjusting the image or preprocessing.'']"
proof -
  have nc: "\<not> cancelledAfter (Some c) 0" if "0 < c" for c
    using that by (simp add: cancelledAfter_def)
  have "filter isCallback (fst (recognize (envDemo\<lparr>decoded := Inr speck\<rparr>) (Some 1) readyWorld)) =
     [OnError ''No digits detected. Try adjusting the image or preprocessing.'']"
    by (simp add: recognize_def Let_def loadMNISTModel_def readyWorld_def envDemo_def
          cancelledAfter_def speck_segments)
  then show ?thesis using recognize_demo [OF nc [of 3]] by simp
qed

end
